theory Spec2Isabelle
  imports Main "HOL-Library.Sublist"
begin

section \<open>Platform values: numbers, strings, dates\<close>

text \<open>
  The offline task service of \<^verbatim>\<open>src/services/taskService.ts\<close> is embedded below.
  A JavaScript number that holds an integer or \<^verbatim>\<open>NaN\<close> is an \<open>int option\<close>
  (\<open>None\<close> is \<^verbatim>\<open>NaN\<close>, and also the \<^verbatim>\<open>null\<close> that JSON writes for it).
\<close>

type_synonym jsnum = "int option"

text \<open>\<^verbatim>\<open>a === b\<close> on numbers: \<^verbatim>\<open>NaN\<close> equals nothing, not even itself.\<close>

definition strict_eq :: "jsnum \<Rightarrow> jsnum \<Rightarrow> bool" where
  "strict_eq a b = (case a of None \<Rightarrow> False | Some x \<Rightarrow> (case b of None \<Rightarrow> False | Some y \<Rightarrow> x = y))"

subsection \<open>Number to string, string to number\<close>

definition digit_char :: "nat \<Rightarrow> char" where
  "digit_char n = char_of (48 + n)"

fun string_of_nat :: "nat \<Rightarrow> string" where
  "string_of_nat n =
     (if n < 10 then [digit_char n] else string_of_nat (n div 10) @ [digit_char (n mod 10)])"

declare string_of_nat.simps [simp del]

text \<open>\<^verbatim>\<open>String(n)\<close> for an integer \<open>n\<close> (the range of timestamps and ids has no exponent form).\<close>

definition string_of_int :: "int \<Rightarrow> string" where
  "string_of_int i = (if i < 0 then CHR ''-'' # string_of_nat (nat (- i)) else string_of_nat (nat i))"

definition is_digit :: "char \<Rightarrow> bool" where
  "is_digit c = (48 \<le> (of_char c :: nat) \<and> (of_char c :: nat) \<le> 57)"

definition digit_val :: "char \<Rightarrow> nat" where
  "digit_val c = of_char c - 48"

definition is_space :: "char \<Rightarrow> bool" where
  "is_space c = ((of_char c :: nat) = 32 \<or> (9 \<le> (of_char c :: nat) \<and> (of_char c :: nat) \<le> 13))"

definition digits_value :: "string \<Rightarrow> nat" where
  "digits_value ds = foldl (\<lambda>a c. 10 * a + digit_val c) 0 ds"

definition is_hex_digit :: "char \<Rightarrow> bool" where
  "is_hex_digit c =
     (is_digit c \<or> (65 \<le> (of_char c :: nat) \<and> (of_char c :: nat) \<le> 70)
       \<or> (97 \<le> (of_char c :: nat) \<and> (of_char c :: nat) \<le> 102))"

definition hex_val :: "char \<Rightarrow> nat" where
  "hex_val c =
     (if is_digit c then of_char c - 48
      else if (of_char c :: nat) \<le> 70 then of_char c - 55 else of_char c - 87)"

definition hex_value :: "string \<Rightarrow> nat" where
  "hex_value ds = foldl (\<lambda>a c. 16 * a + hex_val c) 0 ds"

text \<open>
  The sign that \<^verbatim>\<open>parseInt\<close> reads after leading white space: the flag and the rest.
\<close>

definition read_sign :: "string \<Rightarrow> bool \<times> string" where
  "read_sign s =
     (case s of
        [] \<Rightarrow> (False, [])
      | c # r \<Rightarrow> (if c = CHR ''-'' then (True, r) else if c = CHR ''+'' then (False, r) else (False, s)))"

definition signed :: "bool \<Rightarrow> nat \<Rightarrow> int" where
  "signed neg n = (if neg then - int n else int n)"

text \<open>\<^verbatim>\<open>parseInt(s, 10)\<close>: white space, a sign, the longest run of digits; no digit is \<^verbatim>\<open>NaN\<close>.\<close>

definition parseInt10 :: "string \<Rightarrow> jsnum" where
  "parseInt10 s =
     (let (neg, r) = read_sign (dropWhile is_space s);
          ds = takeWhile is_digit r
      in if ds = [] then None else Some (signed neg (digits_value ds)))"

text \<open>\<^verbatim>\<open>parseInt(s)\<close> with no radix: as above, but a \<^verbatim>\<open>0x\<close> prefix selects radix 16.\<close>

definition parseInt :: "string \<Rightarrow> jsnum" where
  "parseInt s =
     (let (neg, r) = read_sign (dropWhile is_space s)
      in if take 2 r = ''0x'' \<or> take 2 r = ''0X''
         then (let hs = takeWhile is_hex_digit (drop 2 r)
               in if hs = [] then None else Some (signed neg (hex_value hs)))
         else (let ds = takeWhile is_digit r
               in if ds = [] then None else Some (signed neg (digits_value ds))))"

text \<open>\<^verbatim>\<open>s.replace(pat, rep)\<close> with a string pattern: the first occurrence only.\<close>

fun replace_first :: "string \<Rightarrow> string \<Rightarrow> string \<Rightarrow> string" where
  "replace_first pat rep [] = (if pat = [] then rep else [])"
| "replace_first pat rep (c # cs) =
     (if prefix pat (c # cs) then rep @ drop (length pat) (c # cs)
      else c # replace_first pat rep cs)"

subsection \<open>Identifiers\<close>

text \<open>
  \<^verbatim>\<open>generateId\<close> reads the clock (\<^verbatim>\<open>Date.now()\<close>, milliseconds) and
  \<^verbatim>\<open>Math.random().toString(36).substr(2, 9)\<close>; both readings are arguments here.
\<close>

definition generateId :: "int \<Rightarrow> string \<Rightarrow> string" where
  "generateId now rnd = ''local_'' @ string_of_int now @ ''_'' @ rnd"

text \<open>
  The provisional id of \<^verbatim>\<open>createTask\<close>:
  \<^verbatim>\<open>parseInt(this.generateId().replace('local_', '').substring(0, 8), 10)\<close>.
\<close>

definition localId :: "int \<Rightarrow> string \<Rightarrow> jsnum" where
  "localId now rnd = parseInt10 (take 8 (replace_first ''local_'' [] (generateId now rnd)))"

subsection \<open>Dates\<close>

text \<open>
  A valid \<^verbatim>\<open>Date\<close> is kept as the fields its local-time getters return:
  \<^verbatim>\<open>getFullYear()\<close>, \<^verbatim>\<open>getMonth()\<close> (from 0), \<^verbatim>\<open>getDate()\<close> and the milliseconds
  since local midnight. \<open>None\<close> is the \<^verbatim>\<open>Invalid Date\<close>. Within one time zone two
  valid dates have the same \<^verbatim>\<open>getTime()\<close> exactly when these fields agree.
\<close>

record civil =
  year :: int
  month :: nat
  mday :: nat
  msec :: nat

type_synonym jsdate = "civil option"




section \<open>Data model\<close>

text \<open>
  The interfaces of \<^verbatim>\<open>taskService.ts\<close>. An optional field is an \<open>option\<close>; \<open>None\<close>
  stands for both \<^verbatim>\<open>undefined\<close> and \<^verbatim>\<open>null\<close>, which every test of the service but
  one \<^verbatim>\<open>===\<close> in \<^verbatim>\<open>createTask\<close> treats alike.
\<close>

record task_user =
  owner_id :: jsnum
  owner_username :: string

record task =
  task_id :: jsnum
  title :: "string option"
  completed :: "bool option"
  due_date :: "string option"
  dueDate :: "jsdate option"
  user :: "task_user option"
  userId :: "string option"
  isLocal :: "bool option"
  needsSync :: "bool option"

record createTaskData =
  c_title :: string
  c_dueDate :: "string option"

record updateTaskData =
  u_title :: "string option"
  u_completed :: "bool option"
  u_dueDate :: "string option"

datatype action_type = Create | Update | Delete

datatype payload = CreateData createTaskData | UpdateData updateTaskData | NoData

record offlineAction =
  action_id :: string
  atype :: action_type
  taskId :: jsnum
  data :: payload
  timestamp :: int

text \<open>The \<^verbatim>\<open>User\<close> of \<^verbatim>\<open>authService\<close>.\<close>

record authUser =
  auth_id :: string
  auth_username :: string
  auth_name :: string

text \<open>Whatever a \<^verbatim>\<open>throw\<close> or a rejected promise carries.\<close>

datatype exn = Error string | TypeError | SyntaxError | NetworkFailure

section \<open>The remote service and the local store\<close>

text \<open>
  The \<^verbatim>\<open>data\<close> member of a response body is a task object, an array of task objects,
  or absent. \<open>Unparsable\<close> is a body on which \<^verbatim>\<open>response.json()\<close> rejects or yields
  no object; \<open>Rejected\<close> is a \<^verbatim>\<open>fetch\<close> that rejects.
\<close>

datatype api_data = NoTask | OneTask task | TaskList "task list"

datatype json_body = Unparsable | Json "int option" api_data

record response =
  ok :: bool
  body :: json_body

datatype outcome = Rejected | Responded response

text \<open>A request: the bearer token, then the task id of the URL and the JSON body if any.\<close>

datatype request =
    GetTasks string
  | PostTask string payload
  | PutTask string jsnum payload
  | DeleteTask string jsnum

text \<open>
  The state the service works on: the two AsyncStorage items (\<open>None\<close> when the key is
  not set), the outcomes the network will give to the coming \<^verbatim>\<open>fetch\<close> calls in order,
  and the requests issued so far. A stored list of tasks stands for its JSON text.
\<close>

record world =
  tasks_item :: "task list option"
  actions_item :: "offlineAction list option"
  network :: "outcome list"
  sent :: "request list"

text \<open>
  What one call of the service reads from its surroundings: \<^verbatim>\<open>new Date(s)\<close> of the
  platform, the session of \<^verbatim>\<open>authService\<close>, and the clock and \<^verbatim>\<open>Math.random\<close> at
  each place of the call that reads them (numbered in the order of the source text).
\<close>

record env =
  parseDate :: "string \<Rightarrow> jsdate"
  token :: "string option"
  currentUser :: "authUser option"
  dateNow :: "nat \<Rightarrow> int"
  mathRandom :: "nat \<Rightarrow> string"

text \<open>\<^verbatim>\<open>fetch\<close>: the request is issued; the next outcome decides. No outcome left rejects.\<close>

definition fetch :: "request \<Rightarrow> world \<Rightarrow> (exn + response) \<times> world" where
  "fetch r w =
     (case network w of
        [] \<Rightarrow> (Inl NetworkFailure, w\<lparr>sent := sent w @ [r]\<rparr>)
      | out # rest \<Rightarrow>
          (case out of
             Rejected \<Rightarrow> (Inl NetworkFailure, w\<lparr>network := rest, sent := sent w @ [r]\<rparr>)
           | Responded resp \<Rightarrow> (Inr resp, w\<lparr>network := rest, sent := sent w @ [r]\<rparr>)))"

text \<open>\<^verbatim>\<open>const token = await authService.getToken(); if (!token) throw new Error('No auth token')\<close>\<close>

definition bearer :: "env \<Rightarrow> exn + string" where
  "bearer e =
     (case token e of
        None \<Rightarrow> Inl (Error ''No auth token'')
      | Some tok \<Rightarrow> if tok = [] then Inl (Error ''No auth token'') else Inr tok)"

text \<open>\<^verbatim>\<open>s ? new Date(s) : undefined\<close>\<close>

definition dateOf :: "env \<Rightarrow> string option \<Rightarrow> jsdate option" where
  "dateOf e so =
     (case so of None \<Rightarrow> None | Some s \<Rightarrow> if s = [] then None else Some (parseDate e s))"

definition convertBackendTask :: "env \<Rightarrow> task \<Rightarrow> task" where
  "convertBackendTask e backendTask =
     backendTask
       \<lparr>dueDate := dateOf e (due_date backendTask),
        userId := Some (case user backendTask of
                          None \<Rightarrow> ''1''
                        | Some u \<Rightarrow> (case owner_id u of None \<Rightarrow> ''1'' | Some i \<Rightarrow> string_of_int i)),
        completed := Some (case completed backendTask of None \<Rightarrow> False | Some c \<Rightarrow> c)\<rparr>"

definition getStoredTasks :: "env \<Rightarrow> world \<Rightarrow> task list" where
  "getStoredTasks e w =
     (case tasks_item w of
        None \<Rightarrow> []
      | Some tasks \<Rightarrow> map (\<lambda>t. t\<lparr>dueDate := dateOf e (due_date t)\<rparr>) tasks)"

definition storeTasks :: "task list \<Rightarrow> world \<Rightarrow> world" where
  "storeTasks tasks w = w\<lparr>tasks_item := Some tasks\<rparr>"

definition getOfflineActions :: "world \<Rightarrow> offlineAction list" where
  "getOfflineActions w = (case actions_item w of None \<Rightarrow> [] | Some actions \<Rightarrow> actions)"

definition storeOfflineAction :: "offlineAction \<Rightarrow> world \<Rightarrow> world" where
  "storeOfflineAction action w = w\<lparr>actions_item := Some (getOfflineActions w @ [action])\<rparr>"

definition clearOfflineActions :: "world \<Rightarrow> world" where
  "clearOfflineActions w = w\<lparr>actions_item := None\<rparr>"

section \<open>fetchTasks\<close>

text \<open>The body of the \<^verbatim>\<open>try\<close>, then the function with its \<^verbatim>\<open>catch\<close>.\<close>

definition fetchTasks_try :: "env \<Rightarrow> world \<Rightarrow> (exn + task list) \<times> world" where
  "fetchTasks_try e w =
     (case bearer e of
        Inl x \<Rightarrow> (Inl x, w)
      | Inr tok \<Rightarrow>
          (case fetch (GetTasks tok) w of
             (Inl x, w1) \<Rightarrow> (Inl x, w1)
           | (Inr resp, w1) \<Rightarrow>
               if \<not> ok resp then (Inl (Error ''Failed to fetch tasks''), w1)
               else (case body resp of
                       Unparsable \<Rightarrow> (Inl SyntaxError, w1)
                     | Json status_code dat \<Rightarrow>
                         if status_code \<noteq> Some 200
                         then (Inl (Error ''API returned error status''), w1)
                         else (case dat of
                                 TaskList bs \<Rightarrow>
                                   (let convertedTasks = map (convertBackendTask e) bs
                                    in (Inr convertedTasks, storeTasks convertedTasks w1))
                               | OneTask b \<Rightarrow> (Inl TypeError, w1)
                               | NoTask \<Rightarrow> (Inl TypeError, w1)))))"

definition fetchTasks :: "env \<Rightarrow> world \<Rightarrow> (exn + task list) \<times> world" where
  "fetchTasks e w =
     (case fetchTasks_try e w of
        (Inr tasks, w1) \<Rightarrow> (Inr tasks, w1)
      | (Inl error, w1) \<Rightarrow> (Inr (getStoredTasks e w1), w1))"

section \<open>createTask\<close>

text \<open>The provisional task that \<^verbatim>\<open>createTask\<close> builds before it tries the network.\<close>

definition newLocalTask :: "env \<Rightarrow> authUser \<Rightarrow> createTaskData \<Rightarrow> task" where
  "newLocalTask e u taskData =
     \<lparr>task_id = localId (dateNow e 0) (mathRandom e 0),
      title = Some (c_title taskData),
      completed = Some False,
      due_date = (case c_dueDate taskData of None \<Rightarrow> None | Some s \<Rightarrow> if s = [] then None else Some s),
      dueDate = dateOf e (c_dueDate taskData),
      user = Some \<lparr>owner_id = parseInt (auth_id u), owner_username = auth_username u\<rparr>,
      userId = Some (auth_id u),
      isLocal = Some True,
      needsSync = Some True\<rparr>"

text \<open>
  \<^verbatim>\<open>apiResponse.data\<close> read as an object: reading a property of an absent \<^verbatim>\<open>data\<close>
  throws a \<^verbatim>\<open>TypeError\<close>; an array has none of the properties of a task.
\<close>

definition emptyObject :: task where
  "emptyObject =
     \<lparr>task_id = None, title = None, completed = None, due_date = None, dueDate = None,
      user = None, userId = None, isLocal = None, needsSync = None\<rparr>"

definition asObject :: "api_data \<Rightarrow> task option" where
  "asObject dat = (case dat of NoTask \<Rightarrow> None | OneTask b \<Rightarrow> Some b | TaskList bs \<Rightarrow> Some emptyObject)"

text \<open>
  After a 200 or 201: the refresh, the search for the new task, and the temporary task
  object (whose id is \<^verbatim>\<open>Date.now()\<close>) when the search finds nothing. A \<^verbatim>\<open>TypeError\<close>
  raised in the search is caught by the inner \<^verbatim>\<open>catch\<close> and raised again by the
  fallback, which reads the same \<^verbatim>\<open>data\<close>.
\<close>

definition createTask_created :: "env \<Rightarrow> authUser \<Rightarrow> api_data \<Rightarrow> world \<Rightarrow> (exn + task) \<times> world" where
  "createTask_created e u dat w =
     (case fetchTasks e w of
        (fresh, w1) \<Rightarrow>
          (case asObject dat of
             None \<Rightarrow> (Inl TypeError, w1)
           | Some b \<Rightarrow>
               (case (case fresh of
                        Inl x \<Rightarrow> None
                      | Inr freshTasks \<Rightarrow>
                          find (\<lambda>t. title t = title b \<and> due_date t = due_date b) freshTasks) of
                  Some newlyCreatedTask \<Rightarrow> (Inr newlyCreatedTask, w1)
                | None \<Rightarrow>
                    (case user b of
                       None \<Rightarrow> (Inl TypeError, w1)
                     | Some bu \<Rightarrow>
                         (Inr \<lparr>task_id = Some (dateNow e 1),
                               title = title b,
                               completed = Some False,
                               due_date = due_date b,
                               dueDate = dateOf e (due_date b),
                               user = Some \<lparr>owner_id = owner_id bu, owner_username = auth_username u\<rparr>,
                               userId = Some (auth_id u),
                               isLocal = None,
                               needsSync = None\<rparr>, w1)))))"

definition createTask_try :: "env \<Rightarrow> authUser \<Rightarrow> createTaskData \<Rightarrow> world \<Rightarrow> (exn + task) \<times> world" where
  "createTask_try e u taskData w =
     (case bearer e of
        Inl x \<Rightarrow> (Inl x, w)
      | Inr tok \<Rightarrow>
          (case fetch (PostTask tok (CreateData taskData)) w of
             (Inl x, w1) \<Rightarrow> (Inl x, w1)
           | (Inr resp, w1) \<Rightarrow>
               if ok resp
               then (case body resp of
                       Unparsable \<Rightarrow> (Inl SyntaxError, w1)
                     | Json status_code dat \<Rightarrow>
                         if status_code = Some 200 \<or> status_code = Some 201
                         then createTask_created e u dat w1
                         else (Inl (Error ''Backend creation failed''), w1))
               else (Inl (Error ''Backend creation failed''), w1)))"

definition createTask :: "env \<Rightarrow> createTaskData \<Rightarrow> world \<Rightarrow> (exn + task) \<times> world" where
  "createTask e taskData w =
     (case currentUser e of
        None \<Rightarrow> (Inl (Error ''User not authenticated''), w)
      | Some u \<Rightarrow>
          (let newTask = newLocalTask e u taskData
           in case createTask_try e u taskData w of
                (Inr t, w1) \<Rightarrow> (Inr t, w1)
              | (Inl error, w1) \<Rightarrow>
                  (let tasks = getStoredTasks e w1;
                       w2 = storeTasks (tasks @ [newTask]) w1;
                       w3 = storeOfflineAction
                              \<lparr>action_id = generateId (dateNow e 2) (mathRandom e 1),
                               atype = Create,
                               taskId = task_id newTask,
                               data = CreateData taskData,
                               timestamp = dateNow e 3\<rparr> w2
                   in (Inr newTask, w3))))"

section \<open>updateTask and deleteTask\<close>

text \<open>\<^verbatim>\<open>findIndex\<close>, with \<open>None\<close> for -1.\<close>

fun findIndex :: "('a \<Rightarrow> bool) \<Rightarrow> 'a list \<Rightarrow> nat option" where
  "findIndex P [] = None"
| "findIndex P (x # xs) = (if P x then Some 0 else map_option Suc (findIndex P xs))"

text \<open>\<^verbatim>\<open>tasks.splice(i, 1)\<close>\<close>

definition splice1 :: "nat \<Rightarrow> 'a list \<Rightarrow> 'a list" where
  "splice1 i xs = take i xs @ drop (Suc i) xs"

text \<open>
  \<^verbatim>\<open>{...tasks[taskIndex], ...updateData, dueDate: ..., needsSync: true}\<close>; the
  \<^verbatim>\<open>dueDate\<close> string of the update is overwritten by the date, \<^verbatim>\<open>due_date\<close> is kept.
\<close>

definition mergeUpdate :: "env \<Rightarrow> task \<Rightarrow> updateTaskData \<Rightarrow> task" where
  "mergeUpdate e t updateData =
     t\<lparr>title := (case u_title updateData of None \<Rightarrow> title t | Some s \<Rightarrow> Some s),
       completed := (case u_completed updateData of None \<Rightarrow> completed t | Some c \<Rightarrow> Some c),
       dueDate := (case u_dueDate updateData of
                     None \<Rightarrow> dueDate t
                   | Some s \<Rightarrow> if s = [] then dueDate t else Some (parseDate e s)),
       needsSync := Some True\<rparr>"

definition updateTask_try ::
  "env \<Rightarrow> jsnum \<Rightarrow> updateTaskData \<Rightarrow> task list \<Rightarrow> nat \<Rightarrow> world \<Rightarrow> (exn + task) \<times> world" where
  "updateTask_try e taskId' updateData tasks taskIndex w =
     (case bearer e of
        Inl x \<Rightarrow> (Inl x, w)
      | Inr tok \<Rightarrow>
          (case fetch (PutTask tok taskId' (UpdateData updateData)) w of
             (Inl x, w1) \<Rightarrow> (Inl x, w1)
           | (Inr resp, w1) \<Rightarrow>
               if ok resp
               then (case body resp of
                       Unparsable \<Rightarrow> (Inl SyntaxError, w1)
                     | Json status_code dat \<Rightarrow>
                         if status_code = Some 200
                         then (case asObject dat of
                                 None \<Rightarrow> (Inl TypeError, w1)
                               | Some b \<Rightarrow>
                                   (let backendTask = convertBackendTask e b
                                    in (Inr backendTask,
                                        storeTasks (tasks[taskIndex := backendTask]) w1)))
                         else (Inl (Error ''Backend update failed''), w1))
               else (Inl (Error ''Backend update failed''), w1)))"

definition updateTask :: "env \<Rightarrow> jsnum \<Rightarrow> updateTaskData \<Rightarrow> world \<Rightarrow> (exn + task) \<times> world" where
  "updateTask e taskId' updateData w =
     (let tasks = getStoredTasks e w
      in case findIndex (\<lambda>t. strict_eq (task_id t) taskId') tasks of
           None \<Rightarrow> (Inl (Error ''Task not found''), w)
         | Some taskIndex \<Rightarrow>
             (let updatedTask = mergeUpdate e (tasks ! taskIndex) updateData
              in case updateTask_try e taskId' updateData tasks taskIndex w of
                   (Inr t, w1) \<Rightarrow> (Inr t, w1)
                 | (Inl error, w1) \<Rightarrow>
                     (let w2 = storeTasks (tasks[taskIndex := updatedTask]) w1;
                          w3 = storeOfflineAction
                                 \<lparr>action_id = generateId (dateNow e 0) (mathRandom e 0),
                                  atype = Update,
                                  taskId = taskId',
                                  data = UpdateData updateData,
                                  timestamp = dateNow e 1\<rparr> w2
                      in (Inr updatedTask, w3))))"

definition deleteTask_try :: "env \<Rightarrow> jsnum \<Rightarrow> task list \<Rightarrow> nat \<Rightarrow> world \<Rightarrow> (exn + unit) \<times> world" where
  "deleteTask_try e taskId' tasks taskIndex w =
     (case bearer e of
        Inl x \<Rightarrow> (Inl x, w)
      | Inr tok \<Rightarrow>
          (case fetch (DeleteTask tok taskId') w of
             (Inl x, w1) \<Rightarrow> (Inl x, w1)
           | (Inr resp, w1) \<Rightarrow>
               if ok resp
               then (case body resp of
                       Unparsable \<Rightarrow> (Inl SyntaxError, w1)
                     | Json status_code dat \<Rightarrow>
                         if status_code = Some 200
                         then (Inr (), storeTasks (splice1 taskIndex tasks) w1)
                         else (Inl (Error ''Backend deletion failed''), w1))
               else (Inl (Error ''Backend deletion failed''), w1)))"

definition deleteTask :: "env \<Rightarrow> jsnum \<Rightarrow> world \<Rightarrow> (exn + unit) \<times> world" where
  "deleteTask e taskId' w =
     (let tasks = getStoredTasks e w
      in case findIndex (\<lambda>t. strict_eq (task_id t) taskId') tasks of
           None \<Rightarrow> (Inl (Error ''Task not found''), w)
         | Some taskIndex \<Rightarrow>
             (case deleteTask_try e taskId' tasks taskIndex w of
                (Inr u, w1) \<Rightarrow> (Inr (), w1)
              | (Inl error, w1) \<Rightarrow>
                  (let w2 = storeTasks (splice1 taskIndex tasks) w1;
                       w3 = storeOfflineAction
                              \<lparr>action_id = generateId (dateNow e 0) (mathRandom e 0),
                               atype = Delete,
                               taskId = taskId',
                               data = NoData,
                               timestamp = dateNow e 1\<rparr> w2
                   in (Inr (), w3))))"

section \<open>syncOfflineChanges\<close>

text \<open>The request that the \<^verbatim>\<open>switch\<close> issues for a queued action.\<close>

definition requestOf :: "string \<Rightarrow> offlineAction \<Rightarrow> request" where
  "requestOf tok action =
     (case atype action of
        Create \<Rightarrow> PostTask tok (data action)
      | Update \<Rightarrow> PutTask tok (taskId action) (data action)
      | Delete \<Rightarrow> DeleteTask tok (taskId action))"

text \<open>The body of the \<^verbatim>\<open>try\<close> inside the loop; the parsed result is only logged.\<close>

definition syncAction_try :: "string \<Rightarrow> offlineAction \<Rightarrow> world \<Rightarrow> (exn + unit) \<times> world" where
  "syncAction_try tok action w =
     (case fetch (requestOf tok action) w of
        (Inl x, w1) \<Rightarrow> (Inl x, w1)
      | (Inr resp, w1) \<Rightarrow>
          if ok resp
          then (case body resp of Unparsable \<Rightarrow> (Inl SyntaxError, w1) | Json status_code dat \<Rightarrow> (Inr (), w1))
          else (Inr (), w1))"

text \<open>The \<^verbatim>\<open>for\<close> loop: the \<^verbatim>\<open>catch\<close> logs the error and the loop goes on.\<close>

fun syncLoop :: "string \<Rightarrow> offlineAction list \<Rightarrow> world \<Rightarrow> world" where
  "syncLoop tok [] w = w"
| "syncLoop tok (action # actions) w =
     (case syncAction_try tok action w of
        (Inr u, w1) \<Rightarrow> syncLoop tok actions w1
      | (Inl error, w1) \<Rightarrow> syncLoop tok actions w1)"

definition syncOfflineChanges :: "env \<Rightarrow> world \<Rightarrow> (exn + unit) \<times> world" where
  "syncOfflineChanges e w =
     (let actions = getOfflineActions w
      in case token e of
           None \<Rightarrow> (Inr (), w)
         | Some tok \<Rightarrow>
             if tok = [] \<or> actions = [] then (Inr (), w)
             else (let w1 = syncLoop tok actions w;
                       w2 = clearOfflineActions w1
                   in case fetchTasks e w2 of
                        (Inl x, w3) \<Rightarrow> (Inl x, w3)
                      | (Inr tasks, w3) \<Rightarrow> (Inr (), w3)))"

section \<open>getDueTasks\<close>



section \<open>Notions used to state the properties\<close>

subsection \<open>A remote call that fails\<close>

text \<open>
  The bodies that each operation accepts as a success of its remote call: status code
  200 and an array for the listing, 200 or 201 for a creation, 200 for an update or a
  deletion.
\<close>

definition listed :: "json_body \<Rightarrow> bool" where
  "listed b =
     (case b of
        Unparsable \<Rightarrow> False
      | Json status_code dat \<Rightarrow>
          status_code = Some 200 \<and> (case dat of TaskList bs \<Rightarrow> True | OneTask t \<Rightarrow> False | NoTask \<Rightarrow> False))"

definition created :: "json_body \<Rightarrow> bool" where
  "created b =
     (case b of Unparsable \<Rightarrow> False | Json status_code dat \<Rightarrow> status_code = Some 200 \<or> status_code = Some 201)"

definition confirmed :: "json_body \<Rightarrow> bool" where
  "confirmed b = (case b of Unparsable \<Rightarrow> False | Json status_code dat \<Rightarrow> status_code = Some 200)"

text \<open>
  The next remote call fails: there is no token, or the network rejects the request, or
  the response is not \<^verbatim>\<open>ok\<close>, or its body is not one the operation accepts.
\<close>

definition remoteFails :: "(json_body \<Rightarrow> bool) \<Rightarrow> env \<Rightarrow> world \<Rightarrow> bool" where
  "remoteFails accepted e w =
     (case bearer e of
        Inl x \<Rightarrow> True
      | Inr tok \<Rightarrow>
          (case network w of
             [] \<Rightarrow> True
           | out # rest \<Rightarrow>
               (case out of Rejected \<Rightarrow> True | Responded resp \<Rightarrow> \<not> (ok resp \<and> accepted (body resp)))))"

subsection \<open>Sequences of operations\<close>

datatype operation =
    OpCreate createTaskData
  | OpUpdate jsnum updateTaskData
  | OpDelete jsnum
  | OpSync
  | OpFetch

definition perform :: "env \<Rightarrow> operation \<Rightarrow> world \<Rightarrow> world" where
  "perform e c w =
     (case c of
        OpCreate taskData \<Rightarrow> snd (createTask e taskData w)
      | OpUpdate i updateData \<Rightarrow> snd (updateTask e i updateData w)
      | OpDelete i \<Rightarrow> snd (deleteTask e i w)
      | OpSync \<Rightarrow> snd (syncOfflineChanges e w)
      | OpFetch \<Rightarrow> snd (fetchTasks e w))"

text \<open>
  Each step comes with what the call reads and with the outcomes the network holds
  for it.
\<close>

fun run :: "(env \<times> outcome list \<times> operation) list \<Rightarrow> world \<Rightarrow> world" where
  "run [] w = w"
| "run ((e, net, c) # steps) w = run steps (perform e c (w\<lparr>network := net\<rparr>))"

definition initial :: world where
  "initial = \<lparr>tasks_item = None, actions_item = None, network = [], sent = []\<rparr>"

subsection \<open>Flagged tasks and pending actions\<close>

definition pendingFor :: "action_type \<Rightarrow> task \<Rightarrow> offlineAction list \<Rightarrow> bool" where
  "pendingFor k t actions = list_ex (\<lambda>a. atype a = k \<and> taskId a = task_id t) actions"

definition covered :: "offlineAction list \<Rightarrow> task \<Rightarrow> bool" where
  "covered actions t =
     ((isLocal t = Some True \<longrightarrow> pendingFor Create t actions)
      \<and> (needsSync t = Some True \<and> isLocal t \<noteq> Some True \<longrightarrow> pendingFor Update t actions))"

definition flagsCovered :: "env \<Rightarrow> world \<Rightarrow> bool" where
  "flagsCovered e w = list_all (covered (getOfflineActions w)) (getStoredTasks e w)"

text \<open>A server that does not send the two flags of the client.\<close>

definition noClientFlags :: "task \<Rightarrow> bool" where
  "noClientFlags b = (isLocal b \<noteq> Some True \<and> needsSync b \<noteq> Some True)"

definition plainOutcome :: "outcome \<Rightarrow> bool" where
  "plainOutcome out =
     (case out of
        Rejected \<Rightarrow> True
      | Responded resp \<Rightarrow>
          (case body resp of
             Unparsable \<Rightarrow> True
           | Json status_code dat \<Rightarrow>
               (case dat of
                  NoTask \<Rightarrow> True
                | OneTask b \<Rightarrow> noClientFlags b
                | TaskList bs \<Rightarrow> list_all noClientFlags bs)))"

text \<open>
  A call of \<^verbatim>\<open>syncOfflineChanges\<close> that returns at once, or whose closing
  \<^verbatim>\<open>fetchTasks\<close> gets the list of the server.
\<close>

definition syncRefreshes :: "env \<Rightarrow> world \<Rightarrow> bool" where
  "syncRefreshes e w =
     (case token e of
        None \<Rightarrow> True
      | Some tok \<Rightarrow>
          tok = [] \<or> getOfflineActions w = []
          \<or> (case fst (fetchTasks_try e (clearOfflineActions (syncLoop tok (getOfflineActions w) w))) of
                Inl x \<Rightarrow> False
              | Inr tasks \<Rightarrow> True))"

fun admissible :: "(env \<times> outcome list \<times> operation) list \<Rightarrow> world \<Rightarrow> bool" where
  "admissible [] w = True"
| "admissible ((e, net, c) # steps) w =
     (list_all plainOutcome net
      \<and> (c = OpSync \<longrightarrow> syncRefreshes e (w\<lparr>network := net\<rparr>))
      \<and> admissible steps (perform e c (w\<lparr>network := net\<rparr>)))"

text \<open>The flags are covered and the outcomes to come are those of such a server.\<close>

definition settled :: "env \<Rightarrow> world \<Rightarrow> bool" where
  "settled e w = (flagsCovered e w \<and> list_all plainOutcome (network w))"

subsection \<open>Calendar days\<close>





subsection \<open>Example surroundings\<close>

text \<open>A call that finds no session and the clock at \<open>t\<close>; the examples below adjust it.\<close>

definition envAt :: "int \<Rightarrow> env" where
  "envAt t =
     \<lparr>parseDate = (\<lambda>s. None), token = None, currentUser = None,
      dateNow = (\<lambda>k. t), mathRandom = (\<lambda>k. [])\<rparr>"

definition userA :: authUser where
  "userA = \<lparr>auth_id = ''1'', auth_username = ''admin'', auth_name = ''admin''\<rparr>"

definition dataA :: createTaskData where
  "dataA = \<lparr>c_title = ''Pay rent'', c_dueDate = Some ''2024-01-15''\<rparr>"

definition envOffline :: env where
  "envOffline = (envAt 1700000000000)\<lparr>currentUser := Some userA\<rparr>"

definition envOnline :: env where
  "envOnline = (envAt 1700000000000)\<lparr>token := Some ''jwt'', currentUser := Some userA\<rparr>"

definition taskA :: task where
  "taskA =
     \<lparr>task_id = Some 5, title = Some ''Buy milk'', completed = Some False,
      due_date = None, dueDate = None,
      user = Some \<lparr>owner_id = Some 1, owner_username = ''admin''\<rparr>, userId = Some ''1'',
      isLocal = None, needsSync = None\<rparr>"

definition actionA1 :: offlineAction where
  "actionA1 =
     \<lparr>action_id = ''local_1700000000000_a'', atype = Create, taskId = Some 17000000,
      data = CreateData dataA, timestamp = 1700000000000\<rparr>"

definition actionA2 :: offlineAction where
  "actionA2 =
     \<lparr>action_id = ''local_1700000000001_b'', atype = Update, taskId = Some 17000000,
      data = UpdateData \<lparr>u_title = None, u_completed = Some True, u_dueDate = None\<rparr>,
      timestamp = 1700000000001\<rparr>"

definition worldA :: world where
  "worldA =
     \<lparr>tasks_item = Some [taskA], actions_item = Some [actionA1, actionA2],
      network = [Rejected, Responded \<lparr>ok = True, body = Unparsable\<rparr>], sent = []\<rparr>"







definition respCreated :: outcome where
  "respCreated = Responded \<lparr>ok = True, body = Json (Some 201) (OneTask taskA)\<rparr>"

section \<open>Facts about the platform functions\<close>

lemma digit_val_char: "n < 10 \<Longrightarrow> digit_val (digit_char n) = n"
  by (simp add: digit_val_def digit_char_def)
lemma is_digit_char: "n < 10 \<Longrightarrow> is_digit (digit_char n)"
  by (simp add: is_digit_def digit_char_def)

lemma string_of_nat_digits: "c \<in> set (string_of_nat n) \<Longrightarrow> is_digit c"
proof (induction n arbitrary: c rule: string_of_nat.induct)
  case (1 n)
  show ?case
  proof (cases "n < 10")
    case True
    with "1.prems" show ?thesis by (simp add: string_of_nat.simps [of n] is_digit_char)
  next
    case False
    with "1.prems" have "c \<in> set (string_of_nat (n div 10)) \<or> c = digit_char (n mod 10)"
      by (auto simp add: string_of_nat.simps [of n])
    then show ?thesis
    proof
      assume "c \<in> set (string_of_nat (n div 10))"
      with False "1.IH" show ?thesis by simp
    next
      assume "c = digit_char (n mod 10)"
      then show ?thesis by (simp add: is_digit_char)
    qed
  qed
qed

lemma string_of_nat_nonempty: "string_of_nat n \<noteq> []"
  by (simp add: string_of_nat.simps [of n])

lemma digits_value_snoc: "digits_value (ds @ [c]) = 10 * digits_value ds + digit_val c"
  by (simp add: digits_value_def)

lemma digits_value_string_of_nat: "digits_value (string_of_nat n) = n"
proof (induction n rule: string_of_nat.induct)
  case (1 n)
  show ?case
  proof (cases "n < 10")
    case True
    then show ?thesis by (simp add: string_of_nat.simps [of n] digits_value_def digit_val_char)
  next
    case False
    with "1.IH" have "digits_value (string_of_nat (n div 10)) = n div 10" by simp
    with False show ?thesis
      by (simp add: string_of_nat.simps [of n] digits_value_snoc digit_val_char)
  qed
qed

lemma length_string_of_nat_step:
  "\<not> n < 10 \<Longrightarrow> length (string_of_nat n) = Suc (length (string_of_nat (n div 10)))"
  by (simp add: string_of_nat.simps [of n])

lemma take_string_of_nat:
  "0 < k \<Longrightarrow> take k (string_of_nat n) = string_of_nat (n div 10 ^ (length (string_of_nat n) - k))"
proof (induction n rule: string_of_nat.induct)
  case (1 n)
  show ?case
  proof (cases "n < 10")
    case True
    with "1.prems" show ?thesis by (simp add: string_of_nat.simps [of n])
  next
    case False
    let ?m = "n div 10"
    let ?l = "length (string_of_nat ?m)"
    have len: "length (string_of_nat n) = Suc ?l" using False by (rule length_string_of_nat_step)
    have ih: "take k (string_of_nat ?m) = string_of_nat (?m div 10 ^ (?l - k))"
      using "1.IH" False "1.prems" by simp
    show ?thesis
    proof (cases "k \<le> ?l")
      case True
      have "take k (string_of_nat n) = take k (string_of_nat ?m)"
        using True False by (simp add: string_of_nat.simps [of n])
      also have "\<dots> = string_of_nat (?m div 10 ^ (?l - k))" by (rule ih)
      also have "?m div 10 ^ (?l - k) = n div 10 ^ (Suc ?l - k)"
        using True by (simp add: Suc_diff_le div_mult2_eq)
      finally show ?thesis using len by simp
    next
      case False
      then have "take k (string_of_nat n) = string_of_nat n" using len by simp
      moreover have "length (string_of_nat n) - k = 0" using False len by simp
      ultimately show ?thesis by simp
    qed
  qed
qed

lemma length_string_of_nat: "10 ^ k \<le> n \<Longrightarrow> n < 10 ^ Suc k \<Longrightarrow> length (string_of_nat n) = Suc k"
proof (induction k arbitrary: n)
  case 0
  then show ?case by (simp add: string_of_nat.simps [of n])
next
  case (Suc k)
  from Suc.prems have nl: "\<not> n < 10"
    by (metis One_nat_def le_trans linorder_not_less one_le_numeral one_le_power power_Suc mult.right_neutral mult_le_mono2)
  have "10 ^ k \<le> n div 10" using Suc.prems by (simp add: less_eq_div_iff_mult_less_eq mult.commute)
  moreover have "n div 10 < 10 ^ Suc k" using Suc.prems by (simp add: div_less_iff_less_mult mult.commute)
  ultimately have "length (string_of_nat (n div 10)) = Suc k" by (rule Suc.IH)
  with nl show ?case by (simp add: length_string_of_nat_step)
qed

lemma replace_first_generateId:
  "replace_first ''local_'' [] (generateId now rnd) = string_of_int now @ ''_'' @ rnd"
  by (simp add: generateId_def)

lemma not_digit_underscore: "\<not> is_digit CHR ''_''"
  by (simp add: is_digit_def)

lemma digit_not_space: "is_digit c \<Longrightarrow> \<not> is_space c"
  by (auto simp add: is_digit_def is_space_def)

lemma digit_not_sign: "is_digit c \<Longrightarrow> c \<noteq> CHR ''-'' \<and> c \<noteq> CHR ''+''"
  by (auto simp add: is_digit_def)

lemma parseInt10_digits:
  assumes "ds \<noteq> []" and "\<forall>c \<in> set ds. is_digit c" and "rest = [] \<or> \<not> is_digit (hd rest)"
  shows "parseInt10 (ds @ rest) = Some (int (digits_value ds))"
proof -
  obtain d ds' where ds: "ds = d # ds'" using assms(1) by (cases ds) auto
  have d: "is_digit d" using assms(2) ds by simp
  have dw: "dropWhile is_space (ds @ rest) = ds @ rest"
    using d ds digit_not_space by simp
  have rs: "read_sign (ds @ rest) = (False, ds @ rest)"
    using d ds digit_not_sign by (simp add: read_sign_def)
  have tw: "takeWhile is_digit (ds @ rest) = ds"
    using assms(2,3) by (cases rest) (simp_all add: takeWhile_append2 takeWhile_eq_all_conv)
  show ?thesis using assms(1) by (simp add: parseInt10_def dw rs tw signed_def)
qed

lemma localId_nonneg:
  assumes "0 \<le> now"
  shows "localId now rnd = Some (now div 10 ^ (length (string_of_nat (nat now)) - 8))"
proof -
  let ?s = "string_of_nat (nat now)"
  have "take 8 (replace_first ''local_'' [] (generateId now rnd)) = take 8 ?s @ take (8 - length ?s) (''_'' @ rnd)"
    using assms by (simp add: replace_first_generateId string_of_int_def)
  moreover have "take 8 ?s \<noteq> []" by (simp add: string_of_nat_nonempty)
  moreover have "\<forall>c \<in> set (take 8 ?s). is_digit c"
    by (meson in_set_takeD string_of_nat_digits)
  moreover have "take (8 - length ?s) (''_'' @ rnd) = [] \<or> \<not> is_digit (hd (take (8 - length ?s) (''_'' @ rnd)))"
    by (cases "8 - length ?s") (simp_all add: not_digit_underscore)
  ultimately have "localId now rnd = Some (int (digits_value (take 8 ?s)))"
    by (simp add: localId_def parseInt10_digits)
  also have "digits_value (take 8 ?s) = nat now div 10 ^ (length ?s - 8)"
    by (simp add: take_string_of_nat digits_value_string_of_nat)
  also have "int (nat now div 10 ^ (length ?s - 8)) = now div 10 ^ (length ?s - 8)"
    using assms by (simp add: zdiv_int)
  finally show ?thesis .
qed

lemma localId_13_digits:
  assumes "10 ^ 12 \<le> now" and "now < 10 ^ 13"
  shows "localId now rnd = Some (now div 100000)"
proof -
  have "length (string_of_nat (nat now)) = Suc 12"
    using assms by (intro length_string_of_nat) (simp_all add: nat_le_iff nat_less_iff)
  then show ?thesis using assms by (simp add: localId_nonneg)
qed

section \<open>The provisional id\<close>

text \<open>
  C10 (amended). For a clock reading that is not negative, the provisional id of
  \<^verbatim>\<open>createTask\<close> is the number formed by the first 8 decimal digits of the reading
  (by all of them when there are fewer). A reading of today has 13 digits, so the id is
  the reading divided by 100000: two calls get the same provisional id exactly when their
  readings fall into the same window of 100 seconds, and provisional ids are not unique.
\<close>

theorem provisional_id_first_digits:
  "(0 \<le> dateNow e 0 \<longrightarrow>
      task_id (newLocalTask e u d) =
        Some (dateNow e 0 div 10 ^ (length (string_of_int (dateNow e 0)) - 8)))
   \<and> (10 ^ 12 \<le> dateNow e 0 \<and> dateNow e 0 < 10 ^ 13
        \<and> 10 ^ 12 \<le> dateNow e' 0 \<and> dateNow e' 0 < 10 ^ 13 \<longrightarrow>
        (task_id (newLocalTask e u d) = task_id (newLocalTask e' u' d'))
          = (dateNow e 0 div 100000 = dateNow e' 0 div 100000))"
proof (intro conjI impI)
  assume "0 \<le> dateNow e 0"
  then show "task_id (newLocalTask e u d) =
      Some (dateNow e 0 div 10 ^ (length (string_of_int (dateNow e 0)) - 8))"
    by (simp add: newLocalTask_def localId_nonneg string_of_int_def)
next
  assume b: "10 ^ 12 \<le> dateNow e 0 \<and> dateNow e 0 < 10 ^ 13
        \<and> 10 ^ 12 \<le> dateNow e' 0 \<and> dateNow e' 0 < 10 ^ 13"
  have "localId (dateNow e 0) (mathRandom e 0) = Some (dateNow e 0 div 100000)"
    using b by (intro localId_13_digits) simp_all
  moreover have "localId (dateNow e' 0) (mathRandom e' 0) = Some (dateNow e' 0 div 100000)"
    using b by (intro localId_13_digits) simp_all
  ultimately show "(task_id (newLocalTask e u d) = task_id (newLocalTask e' u' d'))
          = (dateNow e 0 div 100000 = dateNow e' 0 div 100000)"
    by (simp add: newLocalTask_def)
qed

theorem provisional_id_first_digits_witness:
  "task_id (newLocalTask (envAt 1700000000000) userA dataA) = Some 17000000
   \<and> task_id (newLocalTask (envAt 1700000000000) userA dataA)
       = task_id (newLocalTask (envAt 1700000099999) userA dataA)"
proof -
  have "length (string_of_nat (nat 1700000000000)) = Suc 12"
    by (intro length_string_of_nat) simp_all
  then have len: "length (string_of_int 1700000000000) = 13"
    by (simp add: string_of_int_def)
  note T = provisional_id_first_digits
      [of "envAt 1700000000000" userA dataA "envAt 1700000099999" userA dataA]
  have h1: "0 \<le> dateNow (envAt 1700000000000) 0"
    by (simp add: envAt_def)
  have h2: "10 ^ 12 \<le> dateNow (envAt 1700000000000) 0
      \<and> dateNow (envAt 1700000000000) 0 < 10 ^ 13
      \<and> 10 ^ 12 \<le> dateNow (envAt 1700000099999) 0
      \<and> dateNow (envAt 1700000099999) 0 < 10 ^ 13"
    by (simp add: envAt_def)
  have A: "task_id (newLocalTask (envAt 1700000000000) userA dataA) =
      Some (dateNow (envAt 1700000000000) 0
        div 10 ^ (length (string_of_int (dateNow (envAt 1700000000000) 0)) - 8))"
    using T h1 by blast
  have B: "(task_id (newLocalTask (envAt 1700000000000) userA dataA)
       = task_id (newLocalTask (envAt 1700000099999) userA dataA))
       = (dateNow (envAt 1700000000000) 0 div 100000 = dateNow (envAt 1700000099999) 0 div 100000)"
    using T h2 by blast
  have "dateNow (envAt 1700000000000) 0 = 1700000000000"
    and "dateNow (envAt 1700000099999) 0 = 1700000099999"
    by (simp_all add: envAt_def)
  with A B len show ?thesis by simp
qed

text \<open>
  Two calls one hour apart, well inside any window of 28 hours, get different
  provisional ids.
\<close>

theorem provisional_id_28_hours_counterexample:
  "\<bar>1700003600000 - 1700000000000\<bar> < (28 * 3600 * 1000 :: int)
   \<and> task_id (newLocalTask (envAt 1700000000000) userA dataA)
       \<noteq> task_id (newLocalTask (envAt 1700003600000) userA dataA)"
  by (simp add: newLocalTask_def envAt_def localId_13_digits)

section \<open>Facts about the store and the network\<close>

lemma fetch_snd: "snd (fetch r w) = w\<lparr>network := tl (network w), sent := sent w @ [r]\<rparr>"
proof (cases "network w")
  case Nil
  then show ?thesis by (cases w) (simp add: fetch_def)
next
  case (Cons out rest)
  then show ?thesis by (cases out) (simp_all add: fetch_def)
qed

lemma fetch_fst:
  "fst (fetch r w) =
     (case network w of [] \<Rightarrow> Inl NetworkFailure
      | out # rest \<Rightarrow> (case out of Rejected \<Rightarrow> Inl NetworkFailure | Responded resp \<Rightarrow> Inr resp))"
proof (cases "network w")
  case Nil
  then show ?thesis by (simp add: fetch_def)
next
  case (Cons out rest)
  then show ?thesis by (cases out) (simp_all add: fetch_def)
qed

lemma fetch_store:
  "tasks_item (snd (fetch r w)) = tasks_item w"
  "actions_item (snd (fetch r w)) = actions_item w"
  "sent (snd (fetch r w)) = sent w @ [r]"
  "network (snd (fetch r w)) = tl (network w)"
  by (simp_all add: fetch_snd)

lemma getStoredTasks_cong: "tasks_item w' = tasks_item w \<Longrightarrow> getStoredTasks e w' = getStoredTasks e w"
  by (simp add: getStoredTasks_def)

lemma getOfflineActions_cong: "actions_item w' = actions_item w \<Longrightarrow> getOfflineActions w' = getOfflineActions w"
  by (simp add: getOfflineActions_def)

lemma fetchTasks_try_cases:
  obtains (no_token) x where "bearer e = Inl x" "fetchTasks_try e w = (Inl x, w)"
  | (failed) tok x where "bearer e = Inr tok"
      "fetchTasks_try e w = (Inl x, snd (fetch (GetTasks tok) w))"
      "\<forall>resp. fst (fetch (GetTasks tok) w) = Inr resp \<longrightarrow> \<not> (ok resp \<and> listed (body resp))"
  | (listed) tok resp bs where "bearer e = Inr tok"
      "fst (fetch (GetTasks tok) w) = Inr resp" "ok resp" "body resp = Json (Some 200) (TaskList bs)"
      "fetchTasks_try e w =
         (Inr (map (convertBackendTask e) bs),
          storeTasks (map (convertBackendTask e) bs) (snd (fetch (GetTasks tok) w)))"
proof (cases "bearer e")
  case (Inl x)
  then have "fetchTasks_try e w = (Inl x, w)" by (simp add: fetchTasks_try_def)
  with Inl show ?thesis by (rule no_token)
next
  case (Inr tok)
  let ?w = "snd (fetch (GetTasks tok) w)"
  show ?thesis
  proof (cases "fst (fetch (GetTasks tok) w)")
    case (Inl x)
    have t: "fetchTasks_try e w = (Inl x, ?w)"
      using Inr Inl by (simp add: fetchTasks_try_def case_prod_unfold)
    have n: "\<forall>resp. fst (fetch (GetTasks tok) w) = Inr resp \<longrightarrow> \<not> (ok resp \<and> listed (body resp))"
      using Inl by simp
    show ?thesis using Inr t n by (rule failed)
  next
    case fr: (Inr resp)
    have unfold: "fetchTasks_try e w =
        (if \<not> ok resp then (Inl (Error ''Failed to fetch tasks''), ?w)
               else (case body resp of
                       Unparsable \<Rightarrow> (Inl SyntaxError, ?w)
                     | Json status_code dat \<Rightarrow>
                         if status_code \<noteq> Some 200
                         then (Inl (Error ''API returned error status''), ?w)
                         else (case dat of
                                 TaskList bs \<Rightarrow>
                                   (let convertedTasks = map (convertBackendTask e) bs
                                    in (Inr convertedTasks, storeTasks convertedTasks ?w))
                               | OneTask b \<Rightarrow> (Inl TypeError, ?w)
                               | NoTask \<Rightarrow> (Inl TypeError, ?w))))"
      using Inr fr by (simp add: fetchTasks_try_def case_prod_unfold)
    show ?thesis
    proof (cases "ok resp")
      case False
      with unfold have t: "fetchTasks_try e w = (Inl (Error ''Failed to fetch tasks''), ?w)" by simp
      have n: "\<forall>r. fst (fetch (GetTasks tok) w) = Inr r \<longrightarrow> \<not> (ok r \<and> listed (body r))"
        using fr False by (simp add: listed_def)
      show ?thesis using Inr t n by (rule failed)
    next
      case True
      show ?thesis
      proof (cases "body resp")
        case Unparsable
        with unfold True have t: "fetchTasks_try e w = (Inl SyntaxError, ?w)" by simp
        have n: "\<forall>r. fst (fetch (GetTasks tok) w) = Inr r \<longrightarrow> \<not> (ok r \<and> listed (body r))"
          using fr Unparsable by (simp add: listed_def)
        show ?thesis using Inr t n by (rule failed)
      next
        case (Json sc dat)
        show ?thesis
        proof (cases "sc = Some 200")
          case False
          with unfold True Json have t: "fetchTasks_try e w = (Inl (Error ''API returned error status''), ?w)" by simp
          have n: "\<forall>r. fst (fetch (GetTasks tok) w) = Inr r \<longrightarrow> \<not> (ok r \<and> listed (body r))"
            using fr Json False by (simp add: listed_def)
          show ?thesis using Inr t n by (rule failed)
        next
          case sc: True
          show ?thesis
          proof (cases dat)
            case NoTask
            with unfold True Json sc have t: "fetchTasks_try e w = (Inl TypeError, ?w)" by simp
            have n: "\<forall>r. fst (fetch (GetTasks tok) w) = Inr r \<longrightarrow> \<not> (ok r \<and> listed (body r))"
              using fr Json NoTask by (simp add: listed_def)
            show ?thesis using Inr t n by (rule failed)
          next
            case (OneTask b)
            with unfold True Json sc have t: "fetchTasks_try e w = (Inl TypeError, ?w)" by simp
            have n: "\<forall>r. fst (fetch (GetTasks tok) w) = Inr r \<longrightarrow> \<not> (ok r \<and> listed (body r))"
              using fr Json OneTask by (simp add: listed_def)
            show ?thesis using Inr t n by (rule failed)
          next
            case (TaskList bs)
            with unfold True Json sc have "fetchTasks_try e w =
               (Inr (map (convertBackendTask e) bs),
                storeTasks (map (convertBackendTask e) bs) ?w)" by (simp add: Let_def)
            with Inr fr True Json sc TaskList show ?thesis by (intro listed) simp_all
          qed
        qed
      qed
    qed
  qed
qed

lemma fetchTasks_try_Inl:
  "fst (fetchTasks_try e w) = Inl x \<Longrightarrow>
     tasks_item (snd (fetchTasks_try e w)) = tasks_item w"
  by (simp add: fetchTasks_try_def case_prod_unfold fetch_store Let_def storeTasks_def
      split: sum.splits if_splits json_body.splits api_data.splits)

lemma fetchTasks_try_actions: "actions_item (snd (fetchTasks_try e w)) = actions_item w"
  by (simp add: fetchTasks_try_def case_prod_unfold fetch_store Let_def storeTasks_def
      split: sum.splits if_splits json_body.splits api_data.splits)

lemma remoteFails_fetch:
  assumes "remoteFails acc e w" and "bearer e = Inr tok" and "fst (fetch r w) = Inr resp"
  shows "\<not> (ok resp \<and> acc (body resp))"
proof (cases "network w")
  case Nil
  with assms(3) show ?thesis by (simp add: fetch_fst)
next
  case (Cons out rest)
  with assms show ?thesis by (cases out) (simp_all add: fetch_fst remoteFails_def)
qed

lemma createTask_try_fails:
  assumes "remoteFails created e w"
  shows "\<exists>x. fst (createTask_try e u d w) = Inl x
     \<and> tasks_item (snd (createTask_try e u d w)) = tasks_item w
     \<and> actions_item (snd (createTask_try e u d w)) = actions_item w"
proof (cases "bearer e")
  case (Inl x)
  then show ?thesis by (simp add: createTask_try_def)
next
  case (Inr tok)
  let ?r = "PostTask tok (CreateData d)"
  show ?thesis
  proof (cases "fst (fetch ?r w)")
    case (Inl x)
    with Inr show ?thesis by (simp add: createTask_try_def case_prod_unfold fetch_store)
  next
    case fr: (Inr resp)
    from remoteFails_fetch [OF assms Inr fr] have "\<not> ok resp \<or> \<not> created (body resp)" by simp
    then show ?thesis
    proof
      assume "\<not> ok resp"
      with Inr fr show ?thesis by (simp add: createTask_try_def case_prod_unfold fetch_store)
    next
      assume nc: "\<not> created (body resp)"
      show ?thesis
      proof (cases "body resp")
        case Unparsable
        with Inr fr show ?thesis by (simp add: createTask_try_def case_prod_unfold fetch_store)
      next
        case (Json sc dat)
        with nc have "sc \<noteq> Some 200 \<and> sc \<noteq> Some 201" by (simp add: created_def)
        with Json Inr fr show ?thesis by (simp add: createTask_try_def case_prod_unfold fetch_store)
      qed
    qed
  qed
qed

lemma fetchTasks_total: "\<exists>tasks. fst (fetchTasks e w) = Inr tasks"
  by (cases "fetchTasks_try e w") (simp add: fetchTasks_def split: sum.splits)

lemma fetchTasks_actions: "actions_item (snd (fetchTasks e w)) = actions_item w"
  using fetchTasks_try_actions [of e w]
  by (cases "fetchTasks_try e w") (simp add: fetchTasks_def split: sum.splits)

lemma fetchTasks_snd: "snd (fetchTasks e w) = snd (fetchTasks_try e w)"
  by (cases "fetchTasks_try e w") (simp add: fetchTasks_def split: sum.splits)

lemma fetchTasks_sent:
  assumes "bearer e = Inr tok"
  shows "sent (snd (fetchTasks e w)) = sent w @ [GetTasks tok]"
proof (cases e w rule: fetchTasks_try_cases)
  case (no_token x)
  with assms show ?thesis by simp
next
  case (failed tok' x)
  with assms show ?thesis by (simp add: fetchTasks_snd fetch_store)
next
  case (listed tok' resp bs)
  with assms show ?thesis by (simp add: fetchTasks_snd fetch_store storeTasks_def)
qed

section \<open>Reading falls back to the store\<close>

text \<open>
  C2. \<^verbatim>\<open>fetchTasks\<close> never throws. When its remote call fails (no token, a rejected
  request, a response that is not \<^verbatim>\<open>ok\<close>, a body that cannot be parsed, a status
  code other than 200, or data that is not a list), it returns exactly the stored task
  collection and leaves the stored collection as it was.
\<close>

theorem fetchTasks_fallback:
  "(\<exists>tasks. fst (fetchTasks e w) = Inr tasks)
   \<and> (remoteFails listed e w \<longrightarrow>
        fst (fetchTasks e w) = Inr (getStoredTasks e w)
        \<and> tasks_item (snd (fetchTasks e w)) = tasks_item w
        \<and> getStoredTasks e (snd (fetchTasks e w)) = getStoredTasks e w)"
proof (intro conjI impI)
  show "\<exists>tasks. fst (fetchTasks e w) = Inr tasks" by (rule fetchTasks_total)
next
  assume fails: "remoteFails listed e w"
  have "\<exists>x. fst (fetchTasks_try e w) = Inl x
      \<and> tasks_item (snd (fetchTasks_try e w)) = tasks_item w"
  proof (cases e w rule: fetchTasks_try_cases)
    case (no_token x)
    from no_token(2) show ?thesis by simp
  next
    case (failed tok x)
    from failed(2) show ?thesis by (simp add: fetch_store)
  next
    case (listed tok resp bs)
    from remoteFails_fetch [OF fails listed(1,2)] listed(3,4) have False by (simp add: listed_def)
    then show ?thesis ..
  qed
  then obtain x where t1: "fst (fetchTasks_try e w) = Inl x"
    and st: "tasks_item (snd (fetchTasks_try e w)) = tasks_item w"
    by blast
  define w1 where "w1 = snd (fetchTasks_try e w)"
  have t: "fetchTasks_try e w = (Inl x, w1)" using t1 by (simp add: w1_def prod_eq_iff)
  have st: "tasks_item w1 = tasks_item w" using st by (simp add: w1_def)
  have r: "fetchTasks e w = (Inr (getStoredTasks e w1), w1)" using t by (simp add: fetchTasks_def)
  show "fst (fetchTasks e w) = Inr (getStoredTasks e w)"
    using r getStoredTasks_cong [OF st, of e] by simp
  show "tasks_item (snd (fetchTasks e w)) = tasks_item w" using r st by simp
  show "getStoredTasks e (snd (fetchTasks e w)) = getStoredTasks e w"
    using r getStoredTasks_cong [OF st, of e] by simp
qed

theorem fetchTasks_fallback_witness:
  "fst (fetchTasks envOnline worldA) = Inr [taskA]
   \<and> tasks_item (snd (fetchTasks envOnline worldA)) = Some [taskA]"
proof -
  have "remoteFails listed envOnline worldA"
    by (simp add: remoteFails_def bearer_def envOnline_def envAt_def worldA_def)
  moreover have "getStoredTasks envOnline worldA = [taskA]"
    by (simp add: getStoredTasks_def worldA_def taskA_def dateOf_def)
  moreover have "tasks_item worldA = Some [taskA]" by (simp add: worldA_def)
  ultimately show ?thesis using fetchTasks_fallback [of envOnline worldA] by simp
qed

lemma findIndex_None: "(findIndex P xs = None) = (\<forall>x \<in> set xs. \<not> P x)"
  by (induction xs) auto

lemma findIndex_Some: "findIndex P xs = Some i \<Longrightarrow> i < length xs \<and> P (xs ! i) \<and> (\<forall>j < i. \<not> P (xs ! j))"
proof (induction xs arbitrary: i)
  case Nil
  then show ?case by simp
next
  case (Cons x xs)
  show ?case
  proof (cases "P x")
    case True
    with Cons.prems show ?thesis by simp
  next
    case False
    with Cons.prems obtain k where k: "findIndex P xs = Some k" "i = Suc k" by auto
    from Cons.IH [OF k(1)] False k(2) show ?thesis by (auto simp add: less_Suc_eq_0_disj)
  qed
qed

lemma strict_eq_eq: "strict_eq a b \<Longrightarrow> a = b"
  by (simp add: strict_eq_def split: option.splits)

section \<open>Errors that reach the caller\<close>

text \<open>
  C7. When no stored task has the id, \<^verbatim>\<open>updateTask\<close> and \<^verbatim>\<open>deleteTask\<close> both throw
  the error \<^verbatim>\<open>Task not found\<close> and leave the whole state as it was: the stored tasks are
  unchanged, no offline action is appended, no request is issued.
\<close>

theorem update_delete_not_found:
  assumes "taskId' \<notin> set (map task_id (getStoredTasks e w))"
  shows "updateTask e taskId' updateData w = (Inl (Error ''Task not found''), w)
         \<and> deleteTask e taskId' w = (Inl (Error ''Task not found''), w)"
proof -
  have "\<forall>t \<in> set (getStoredTasks e w). \<not> strict_eq (task_id t) taskId'"
    using assms strict_eq_eq by fastforce
  then have "findIndex (\<lambda>t. strict_eq (task_id t) taskId') (getStoredTasks e w) = None"
    by (simp add: findIndex_None)
  then show ?thesis by (simp add: updateTask_def deleteTask_def)
qed

theorem update_delete_not_found_witness:
  "updateTask envOnline (Some 7) \<lparr>u_title = None, u_completed = Some True, u_dueDate = None\<rparr> worldA
     = (Inl (Error ''Task not found''), worldA)
   \<and> deleteTask envOnline (Some 7) worldA = (Inl (Error ''Task not found''), worldA)"
proof -
  have "Some 7 \<notin> set (map task_id (getStoredTasks envOnline worldA))"
    by (simp add: getStoredTasks_def worldA_def taskA_def)
  then show ?thesis by (rule update_delete_not_found)
qed

text \<open>
  C8. Without a current user \<^verbatim>\<open>createTask\<close> throws the error
  \<^verbatim>\<open>User not authenticated\<close> to its caller, and neither the stored tasks nor the
  queue of offline actions (nor anything else of the state) is modified.
\<close>

theorem createTask_unauthenticated:
  "currentUser e = None \<Longrightarrow> createTask e taskData w = (Inl (Error ''User not authenticated''), w)"
  by (simp add: createTask_def)

theorem createTask_unauthenticated_witness:
  "createTask (envAt 1700000000000) dataA worldA = (Inl (Error ''User not authenticated''), worldA)"
proof -
  have "currentUser (envAt 1700000000000) = None" by (simp add: envAt_def)
  then show ?thesis by (rule createTask_unauthenticated)
qed

lemma syncAction_snd: "snd (syncAction_try tok a w) = snd (fetch (requestOf tok a) w)"
  by (simp add: syncAction_try_def case_prod_unfold split: sum.splits json_body.splits)

lemma syncLoop_step: "syncLoop tok (a # as) w = syncLoop tok as (snd (syncAction_try tok a w))"
  by (cases "syncAction_try tok a w") (simp split: sum.splits)

lemma syncLoop_store:
  "tasks_item (syncLoop tok as w) = tasks_item w
   \<and> actions_item (syncLoop tok as w) = actions_item w
   \<and> sent (syncLoop tok as w) = sent w @ map (requestOf tok) as"
proof (induction as arbitrary: w)
  case Nil
  show ?case by simp
next
  case (Cons a as)
  show ?case unfolding syncLoop_step using Cons.IH [of "snd (syncAction_try tok a w)"]
    by (simp add: syncAction_snd fetch_store)
qed

lemma syncOfflineChanges_run:
  assumes "token e = Some tok" and "tok \<noteq> []" and "getOfflineActions w \<noteq> []"
  shows "syncOfflineChanges e w =
     (Inr (), snd (fetchTasks e (clearOfflineActions (syncLoop tok (getOfflineActions w) w))))"
proof -
  let ?w2 = "clearOfflineActions (syncLoop tok (getOfflineActions w) w)"
  obtain tasks where "fst (fetchTasks e ?w2) = Inr tasks" using fetchTasks_total by blast
  then show ?thesis using assms by (simp add: syncOfflineChanges_def Let_def case_prod_unfold)
qed

section \<open>Draining the queue\<close>

text \<open>
  C1. With a token that is not empty and a queue that is not empty,
  \<^verbatim>\<open>syncOfflineChanges\<close> returns normally and leaves the queue empty (the item is
  removed), whatever outcomes the network gives to the requests of the pass.
\<close>

theorem sync_clears_queue:
  assumes "token e = Some tok" and "tok \<noteq> []" and "getOfflineActions w \<noteq> []"
  shows "fst (syncOfflineChanges e w) = Inr ()
         \<and> actions_item (snd (syncOfflineChanges e w)) = None
         \<and> getOfflineActions (snd (syncOfflineChanges e w)) = []"
  using syncOfflineChanges_run [OF assms]
  by (simp add: fetchTasks_actions clearOfflineActions_def getOfflineActions_def)

theorem sync_clears_queue_witness:
  "fst (syncOfflineChanges envOnline worldA) = Inr ()
   \<and> getOfflineActions (snd (syncOfflineChanges envOnline worldA)) = []"
proof -
  have "token envOnline = Some ''jwt''" by (simp add: envOnline_def envAt_def)
  moreover have "''jwt'' \<noteq> []" by simp
  moreover have "getOfflineActions worldA \<noteq> []" by (simp add: getOfflineActions_def worldA_def)
  ultimately show ?thesis using sync_clears_queue [of envOnline "''jwt''" worldA] by blast
qed

lemma getOfflineActions_store: "getOfflineActions (storeOfflineAction a w) = getOfflineActions w @ [a]"
  by (simp add: storeOfflineAction_def getOfflineActions_def)

text \<open>
  C5. A draining pass issues one request per queued action, in the order of the queue,
  and then the request of the refresh; \<^verbatim>\<open>storeOfflineAction\<close> appends at the end of the
  queue. So for a create action queued before an update action, the POST of the first is
  issued before the PUT of the second.
\<close>

theorem sync_fifo:
  assumes "token e = Some tok" and "tok \<noteq> []" and "getOfflineActions w \<noteq> []"
  shows "sent (snd (syncOfflineChanges e w))
           = sent w @ map (requestOf tok) (getOfflineActions w) @ [GetTasks tok]
         \<and> getOfflineActions (storeOfflineAction a w) = getOfflineActions w @ [a]
         \<and> (\<forall>xs a1 ys a2 zs.
               getOfflineActions w = xs @ a1 # ys @ a2 # zs \<and> atype a1 = Create \<and> atype a2 = Update \<longrightarrow>
               (\<exists>pre mid post. sent (snd (syncOfflineChanges e w))
                  = pre @ PostTask tok (data a1) # mid @ PutTask tok (taskId a2) (data a2) # post))"
proof (intro conjI allI impI)
  have b: "bearer e = Inr tok" using assms by (simp add: bearer_def)
  show s: "sent (snd (syncOfflineChanges e w))
           = sent w @ map (requestOf tok) (getOfflineActions w) @ [GetTasks tok]"
    using syncOfflineChanges_run [OF assms] fetchTasks_sent [OF b]
    by (simp add: clearOfflineActions_def syncLoop_store)
  show "getOfflineActions (storeOfflineAction a w) = getOfflineActions w @ [a]"
    by (rule getOfflineActions_store)
  fix xs a1 ys a2 zs
  assume q: "getOfflineActions w = xs @ a1 # ys @ a2 # zs \<and> atype a1 = Create \<and> atype a2 = Update"
  then have "sent (snd (syncOfflineChanges e w))
      = (sent w @ map (requestOf tok) xs) @ PostTask tok (data a1) # map (requestOf tok) ys
          @ PutTask tok (taskId a2) (data a2) # (map (requestOf tok) zs @ [GetTasks tok])"
    using s by (simp add: requestOf_def)
  then show "\<exists>pre mid post. sent (snd (syncOfflineChanges e w))
                  = pre @ PostTask tok (data a1) # mid @ PutTask tok (taskId a2) (data a2) # post"
    by blast
qed

theorem sync_fifo_witness:
  "sent (snd (syncOfflineChanges envOnline worldA))
     = [PostTask ''jwt'' (data actionA1), PutTask ''jwt'' (taskId actionA2) (data actionA2), GetTasks ''jwt'']"
proof -
  have "token envOnline = Some ''jwt''" by (simp add: envOnline_def envAt_def)
  moreover have "''jwt'' \<noteq> []" by simp
  moreover have q: "getOfflineActions worldA = [actionA1, actionA2]"
    by (simp add: getOfflineActions_def worldA_def)
  ultimately have "sent (snd (syncOfflineChanges envOnline worldA))
           = sent worldA @ map (requestOf ''jwt'') (getOfflineActions worldA) @ [GetTasks ''jwt'']"
    using sync_fifo [of envOnline "''jwt''" worldA] by simp
  then show ?thesis
    by (simp add: q) (simp add: worldA_def requestOf_def actionA1_def actionA2_def)
qed

lemma getStoredTasks_storeTasks:
  "getStoredTasks e (storeTasks tasks w) = map (\<lambda>t. t\<lparr>dueDate := dateOf e (due_date t)\<rparr>) tasks"
  by (simp add: getStoredTasks_def storeTasks_def)

lemma getStoredTasks_rehydrated:
  "map (\<lambda>t. t\<lparr>dueDate := dateOf e (due_date t)\<rparr>) (getStoredTasks e w) = getStoredTasks e w"
  by (simp add: getStoredTasks_def split: option.splits)

lemma getStoredTasks_storeOfflineAction:
  "getStoredTasks e (storeOfflineAction a w) = getStoredTasks e w"
  by (simp add: getStoredTasks_def storeOfflineAction_def)

lemma getOfflineActions_storeTasks: "getOfflineActions (storeTasks tasks w) = getOfflineActions w"
  by (simp add: getOfflineActions_def storeTasks_def)

lemma newLocalTask_rehydrated:
  "(newLocalTask e u d)\<lparr>dueDate := dateOf e (due_date (newLocalTask e u d))\<rparr> = newLocalTask e u d"
  by (simp add: newLocalTask_def dateOf_def split: option.splits)

section \<open>Optimistic creation and deletion\<close>

text \<open>
  C4. With a current user, when the remote create call fails (no token, a rejected
  request, a response that is not \<^verbatim>\<open>ok\<close>, a body that cannot be parsed, or a status
  code other than 200 and 201), \<^verbatim>\<open>createTask\<close> returns the provisional task, which has
  \<^verbatim>\<open>isLocal\<close> and \<^verbatim>\<open>needsSync\<close> true; afterwards the stored tasks are the former ones
  followed by that task, and the queue is the former one followed by exactly one action,
  of type create, with the input as its payload and the id of the task.
\<close>

theorem createTask_offline:
  assumes "currentUser e = Some u" and "remoteFails created e w"
  shows "fst (createTask e d w) = Inr (newLocalTask e u d)
     \<and> isLocal (newLocalTask e u d) = Some True
     \<and> needsSync (newLocalTask e u d) = Some True
     \<and> getStoredTasks e (snd (createTask e d w)) = getStoredTasks e w @ [newLocalTask e u d]
     \<and> (\<exists>a. getOfflineActions (snd (createTask e d w)) = getOfflineActions w @ [a]
            \<and> atype a = Create \<and> data a = CreateData d \<and> taskId a = task_id (newLocalTask e u d))"
proof -
  define w1 where "w1 = snd (createTask_try e u d w)"
  from createTask_try_fails [OF assms(2), of u d] obtain x
    where t: "fst (createTask_try e u d w) = Inl x"
      and st: "tasks_item w1 = tasks_item w" and sa: "actions_item w1 = actions_item w"
    by (auto simp add: w1_def)
  have tw: "createTask_try e u d w = (Inl x, w1)" using t by (simp add: w1_def prod_eq_iff)
  define a where "a = \<lparr>action_id = generateId (dateNow e 2) (mathRandom e 1), atype = Create,
      taskId = task_id (newLocalTask e u d), data = CreateData d, timestamp = dateNow e 3\<rparr>"
  have r: "createTask e d w =
      (Inr (newLocalTask e u d),
       storeOfflineAction a (storeTasks (getStoredTasks e w1 @ [newLocalTask e u d]) w1))"
    using assms(1) tw by (simp add: createTask_def Let_def a_def)
  have s1: "getStoredTasks e w1 = getStoredTasks e w" using getStoredTasks_cong [OF st] .
  have a1: "getOfflineActions w1 = getOfflineActions w" using getOfflineActions_cong [OF sa] .
  have "getStoredTasks e (snd (createTask e d w)) = getStoredTasks e w @ [newLocalTask e u d]"
    using r s1
    by (simp add: getStoredTasks_storeOfflineAction getStoredTasks_storeTasks
        getStoredTasks_rehydrated newLocalTask_rehydrated)
  moreover have "getOfflineActions (snd (createTask e d w)) = getOfflineActions w @ [a]"
    using r a1 by (simp add: getOfflineActions_store getOfflineActions_storeTasks)
  moreover have "atype a = Create \<and> data a = CreateData d \<and> taskId a = task_id (newLocalTask e u d)"
    by (simp add: a_def)
  moreover have "isLocal (newLocalTask e u d) = Some True \<and> needsSync (newLocalTask e u d) = Some True"
    by (simp add: newLocalTask_def)
  ultimately show ?thesis using r by auto
qed

theorem createTask_offline_witness:
  "fst (createTask envOffline dataA worldA) = Inr (newLocalTask envOffline userA dataA)
   \<and> getStoredTasks envOffline (snd (createTask envOffline dataA worldA))
       = [taskA, newLocalTask envOffline userA dataA]
   \<and> length (getOfflineActions (snd (createTask envOffline dataA worldA))) = 3"
proof -
  have u: "currentUser envOffline = Some userA" by (simp add: envOffline_def envAt_def)
  have f: "remoteFails created envOffline worldA"
    by (simp add: remoteFails_def bearer_def envOffline_def envAt_def)
  have s: "getStoredTasks envOffline worldA = [taskA]"
    by (simp add: getStoredTasks_def worldA_def taskA_def dateOf_def)
  have q: "getOfflineActions worldA = [actionA1, actionA2]"
    by (simp add: getOfflineActions_def worldA_def)
  from createTask_offline [OF u f, of dataA] show ?thesis by (auto simp add: s q)
qed
lemma deleteTask_try_fails:
  assumes "remoteFails confirmed e w"
  shows "\<exists>x. fst (deleteTask_try e i tasks k w) = Inl x
     \<and> tasks_item (snd (deleteTask_try e i tasks k w)) = tasks_item w
     \<and> actions_item (snd (deleteTask_try e i tasks k w)) = actions_item w"
proof (cases "bearer e")
  case (Inl x)
  then show ?thesis by (simp add: deleteTask_try_def)
next
  case (Inr tok)
  let ?r = "DeleteTask tok i"
  show ?thesis
  proof (cases "fst (fetch ?r w)")
    case (Inl x)
    with Inr show ?thesis by (simp add: deleteTask_try_def case_prod_unfold fetch_store)
  next
    case fr: (Inr resp)
    from remoteFails_fetch [OF assms Inr fr] have "\<not> ok resp \<or> \<not> confirmed (body resp)" by simp
    then show ?thesis
    proof
      assume "\<not> ok resp"
      with Inr fr show ?thesis by (simp add: deleteTask_try_def case_prod_unfold fetch_store)
    next
      assume nc: "\<not> confirmed (body resp)"
      show ?thesis
      proof (cases "body resp")
        case Unparsable
        with Inr fr show ?thesis by (simp add: deleteTask_try_def case_prod_unfold fetch_store)
      next
        case (Json sc dat)
        with nc have "sc \<noteq> Some 200" by (simp add: confirmed_def)
        with Json Inr fr show ?thesis by (simp add: deleteTask_try_def case_prod_unfold fetch_store)
      qed
    qed
  qed
qed

lemma findIndex_present:
  assumes "Some n \<in> set (map task_id tasks)"
  shows "\<exists>i. findIndex (\<lambda>t. strict_eq (task_id t) (Some n)) tasks = Some i"
proof -
  from assms obtain t where m: "t \<in> set tasks" and "task_id t = Some n" by auto
  then have "strict_eq (task_id t) (Some n)" by (simp add: strict_eq_def)
  with m have "\<exists>t \<in> set tasks. strict_eq (task_id t) (Some n)" by blast
  then have "findIndex (\<lambda>t. strict_eq (task_id t) (Some n)) tasks \<noteq> None"
    by (simp add: findIndex_None)
  then show ?thesis by blast
qed

lemma splice1_map: "map f (splice1 i xs) = splice1 i (map f xs)"
  by (simp add: splice1_def take_map drop_map)

lemma splice1_distinct:
  assumes "distinct (map f xs)" and "i < length xs"
  shows "f (xs ! i) \<notin> set (map f (splice1 i xs))"
proof -
  have "map f xs = map f (take i xs) @ f (xs ! i) # map f (drop (Suc i) xs)"
    using id_take_nth_drop [OF assms(2)] by (metis list.simps(9) map_append)
  with assms(1) have "distinct (map f (take i xs) @ f (xs ! i) # map f (drop (Suc i) xs))" by simp
  then show ?thesis by (auto simp add: splice1_def)
qed

text \<open>
  C6. For an id that a stored task has, when the remote delete call fails (no token, a
  rejected request, a response that is not \<^verbatim>\<open>ok\<close>, a body that cannot be parsed, or a
  status code other than 200), \<^verbatim>\<open>deleteTask\<close> returns normally, the first stored task
  with that id is removed from the stored tasks (so the id is gone when ids are distinct),
  and exactly one action, of type delete and for that id, is appended to the queue.
\<close>

theorem deleteTask_offline:
  assumes "Some n \<in> set (map task_id (getStoredTasks e w))" and "remoteFails confirmed e w"
  shows "fst (deleteTask e (Some n) w) = Inr ()
     \<and> (\<exists>i < length (getStoredTasks e w).
           task_id (getStoredTasks e w ! i) = Some n
           \<and> (\<forall>j < i. task_id (getStoredTasks e w ! j) \<noteq> Some n)
           \<and> getStoredTasks e (snd (deleteTask e (Some n) w)) = splice1 i (getStoredTasks e w))
     \<and> (distinct (map task_id (getStoredTasks e w)) \<longrightarrow>
           Some n \<notin> set (map task_id (getStoredTasks e (snd (deleteTask e (Some n) w)))))
     \<and> (\<exists>a. getOfflineActions (snd (deleteTask e (Some n) w)) = getOfflineActions w @ [a]
            \<and> atype a = Delete \<and> taskId a = Some n)"
proof -
  let ?tasks = "getStoredTasks e w"
  from findIndex_present [OF assms(1)] obtain i
    where fi: "findIndex (\<lambda>t. strict_eq (task_id t) (Some n)) ?tasks = Some i" by blast
  from findIndex_Some [OF fi] have il: "i < length ?tasks"
    and ii: "strict_eq (task_id (?tasks ! i)) (Some n)"
    and ij: "\<forall>j < i. \<not> strict_eq (task_id (?tasks ! j)) (Some n)" by simp_all
  have id: "task_id (?tasks ! i) = Some n" using ii by (rule strict_eq_eq)
  have first: "\<forall>j < i. task_id (?tasks ! j) \<noteq> Some n"
    using ij by (auto simp add: strict_eq_def)
  define w1 where "w1 = snd (deleteTask_try e (Some n) ?tasks i w)"
  from deleteTask_try_fails [OF assms(2), of "Some n" ?tasks i] obtain x
    where t: "fst (deleteTask_try e (Some n) ?tasks i w) = Inl x"
      and st: "tasks_item w1 = tasks_item w" and sa: "actions_item w1 = actions_item w"
    by (auto simp add: w1_def)
  have tw: "deleteTask_try e (Some n) ?tasks i w = (Inl x, w1)" using t by (simp add: w1_def prod_eq_iff)
  define a where "a = \<lparr>action_id = generateId (dateNow e 0) (mathRandom e 0), atype = Delete,
      taskId = Some n, data = NoData, timestamp = dateNow e 1\<rparr>"
  have r: "deleteTask e (Some n) w = (Inr (), storeOfflineAction a (storeTasks (splice1 i ?tasks) w1))"
    using fi tw by (simp add: deleteTask_def Let_def a_def)
  have a1: "getOfflineActions w1 = getOfflineActions w" using getOfflineActions_cong [OF sa] .
  have stored: "getStoredTasks e (snd (deleteTask e (Some n) w)) = splice1 i ?tasks"
    using r
    by (simp add: getStoredTasks_storeOfflineAction getStoredTasks_storeTasks splice1_map
        getStoredTasks_rehydrated)
  have queue: "getOfflineActions (snd (deleteTask e (Some n) w)) = getOfflineActions w @ [a]"
    using r a1 by (simp add: getOfflineActions_store getOfflineActions_storeTasks)
  have gone: "distinct (map task_id ?tasks) \<longrightarrow>
      Some n \<notin> set (map task_id (getStoredTasks e (snd (deleteTask e (Some n) w))))"
    using splice1_distinct [of task_id ?tasks i] il id stored by auto
  have "atype a = Delete \<and> taskId a = Some n" by (simp add: a_def)
  with r il id first stored queue gone show ?thesis by auto
qed

theorem deleteTask_offline_witness:
  "fst (deleteTask envOnline (Some 5) worldA) = Inr ()
   \<and> getStoredTasks envOnline (snd (deleteTask envOnline (Some 5) worldA)) = []
   \<and> length (getOfflineActions (snd (deleteTask envOnline (Some 5) worldA))) = 3"
proof -
  have s: "getStoredTasks envOnline worldA = [taskA]"
    by (simp add: getStoredTasks_def worldA_def taskA_def dateOf_def)
  have p: "Some 5 \<in> set (map task_id (getStoredTasks envOnline worldA))"
    by (simp add: s) (simp add: taskA_def)
  have f: "remoteFails confirmed envOnline worldA"
    by (simp add: remoteFails_def bearer_def envOnline_def envAt_def worldA_def)
  have q: "getOfflineActions worldA = [actionA1, actionA2]"
    by (simp add: getOfflineActions_def worldA_def)
  from deleteTask_offline [OF p f] show ?thesis by (auto simp add: s q splice1_def)
qed






section \<open>Tasks due today\<close>



section \<open>Flagged tasks keep their queued action\<close>

lemma covered_dueDate: "covered acts (t\<lparr>dueDate := x\<rparr>) = covered acts t"
  by (simp add: covered_def pendingFor_def)

lemma flagsCovered_raw:
  "flagsCovered e w =
     list_all (covered (getOfflineActions w)) (case tasks_item w of None \<Rightarrow> [] | Some ts \<Rightarrow> ts)"
proof (cases "tasks_item w")
  case None
  then show ?thesis by (simp add: flagsCovered_def getStoredTasks_def)
next
  case (Some ts)
  then show ?thesis
    by (simp add: flagsCovered_def getStoredTasks_def list_all_iff covered_dueDate)
qed

lemma flagsCovered_cong:
  "tasks_item w' = tasks_item w \<Longrightarrow> actions_item w' = actions_item w \<Longrightarrow>
     flagsCovered e' w' = flagsCovered e w"
  by (simp add: flagsCovered_raw getOfflineActions_def)

lemma flagsCovered_storeTasks:
  "flagsCovered e (storeTasks ts w) = list_all (covered (getOfflineActions w)) ts"
  by (simp add: flagsCovered_raw storeTasks_def getOfflineActions_def)

lemma flagsCovered_queued:
  "flagsCovered e (storeOfflineAction a (storeTasks ts w))
     = list_all (covered (getOfflineActions w @ [a])) ts"
  by (simp add: flagsCovered_raw storeTasks_def storeOfflineAction_def getOfflineActions_def)

lemma flagsCovered_stored:
  "flagsCovered e w = list_all (covered (getOfflineActions w)) (getStoredTasks e' w)"
proof (cases "tasks_item w")
  case None
  then show ?thesis by (simp add: flagsCovered_raw getStoredTasks_def)
next
  case (Some ts)
  then show ?thesis
    by (simp add: flagsCovered_raw getStoredTasks_def list_all_iff covered_dueDate)
qed

lemma covered_mono: "covered acts t \<Longrightarrow> covered (acts @ [a]) t"
  by (auto simp add: covered_def pendingFor_def)

lemma plain_covered: "noClientFlags t \<Longrightarrow> covered acts t"
  by (simp add: covered_def noClientFlags_def)

lemma convert_plain: "noClientFlags b \<Longrightarrow> noClientFlags (convertBackendTask e b)"
  by (simp add: noClientFlags_def convertBackendTask_def)

lemma list_all_tl: "list_all P xs \<Longrightarrow> list_all P (tl xs)"
  by (cases xs) simp_all

lemma plain_response:
  assumes "list_all plainOutcome (network w)" and "fst (fetch r w) = Inr resp"
  shows "plainOutcome (Responded resp)"
proof (cases "network w")
  case Nil
  with assms(2) show ?thesis by (simp add: fetch_fst)
next
  case (Cons out rest)
  with assms show ?thesis by (cases out) (simp_all add: fetch_fst)
qed

lemma plain_asObject:
  assumes "plainOutcome (Responded resp)" and "body resp = Json sc dat" and "asObject dat = Some b"
  shows "noClientFlags b"
  using assms
  by (cases dat) (auto simp add: plainOutcome_def asObject_def emptyObject_def noClientFlags_def)

lemma settled_fetch: "settled e w \<Longrightarrow> settled e (snd (fetch r w))"
  using flagsCovered_cong [of "snd (fetch r w)" w e e]
  by (simp add: settled_def fetch_store list_all_tl)

lemma settled_fetchTasks_try: "settled e w \<Longrightarrow> settled e (snd (fetchTasks_try e w))"
proof (cases e w rule: fetchTasks_try_cases)
  case (no_token x)
  assume "settled e w"
  with no_token(2) show ?thesis by simp
next
  case (failed tok x)
  assume "settled e w"
  with failed(2) show ?thesis by (simp add: settled_fetch)
next
  case (listed tok resp bs)
  assume s: "settled e w"
  then have "list_all plainOutcome (network w)" by (simp add: settled_def)
  then have "plainOutcome (Responded resp)" using listed(2) by (rule plain_response)
  with listed(4) have "list_all noClientFlags bs" by (simp add: plainOutcome_def)
  then have "list_all (covered (getOfflineActions (snd (fetch (GetTasks tok) w))))
      (map (convertBackendTask e) bs)"
    by (simp add: list_all_iff plain_covered convert_plain)
  moreover have "list_all plainOutcome (network (snd (fetch (GetTasks tok) w)))"
    using s by (simp add: settled_def fetch_store list_all_tl)
  ultimately show ?thesis using listed(5)
    by (simp add: settled_def flagsCovered_storeTasks) (simp add: storeTasks_def)
qed

lemma settled_fetchTasks: "settled e w \<Longrightarrow> settled e (snd (fetchTasks e w))"
  by (simp add: fetchTasks_snd settled_fetchTasks_try)

lemma fetchTasks_try_listed_plain:
  assumes "fst (fetchTasks_try e w) = Inr tasks" and "list_all plainOutcome (network w)"
  shows "flagsCovered e' (snd (fetchTasks_try e w))"
proof (cases e w rule: fetchTasks_try_cases)
  case (no_token x)
  with assms(1) show ?thesis by simp
next
  case (failed tok x)
  with assms(1) show ?thesis by simp
next
  case (listed tok resp bs)
  have "plainOutcome (Responded resp)" using plain_response assms(2) listed(2) by blast
  with listed(4) have "list_all noClientFlags bs" by (simp add: plainOutcome_def)
  then have "list_all (covered (getOfflineActions (snd (fetch (GetTasks tok) w))))
      (map (convertBackendTask e) bs)"
    by (simp add: list_all_iff plain_covered convert_plain)
  then show ?thesis using listed(5) by (simp add: flagsCovered_storeTasks)
qed

lemma createTask_created_snd: "snd (createTask_created e u dat w) = snd (fetchTasks e w)"
  by (simp add: createTask_created_def case_prod_unfold split: option.splits sum.splits)

lemma settled_createTask_try: "settled e w \<Longrightarrow> settled e (snd (createTask_try e u d w))"
  by (simp add: createTask_try_def case_prod_unfold createTask_created_snd settled_fetch
      settled_fetchTasks split: sum.splits json_body.splits)

lemma covered_newLocalTask:
  "covered (acts @ [\<lparr>action_id = x, atype = Create, taskId = task_id (newLocalTask e u d),
      data = p, timestamp = ts\<rparr>]) (newLocalTask e u d)"
  by (simp add: covered_def pendingFor_def) (simp add: newLocalTask_def)

lemma settled_createTask: "settled e w \<Longrightarrow> settled e (snd (createTask e d w))"
proof (cases "currentUser e")
  case None
  assume "settled e w"
  with None show ?thesis by (simp add: createTask_def)
next
  case (Some u)
  assume "settled e w"
  then have s1: "settled e (snd (createTask_try e u d w))" by (rule settled_createTask_try)
  show ?thesis
  proof (cases "fst (createTask_try e u d w)")
    case (Inr t)
    with Some s1 show ?thesis by (simp add: createTask_def case_prod_unfold Let_def)
  next
    case (Inl x)
    let ?w1 = "snd (createTask_try e u d w)"
    have "list_all (covered (getOfflineActions ?w1)) (getStoredTasks e ?w1)"
      using s1 flagsCovered_stored [of e ?w1 e] by (simp add: settled_def)
    then show ?thesis using Some Inl s1
      by (simp add: createTask_def case_prod_unfold Let_def settled_def flagsCovered_queued
          covered_newLocalTask list_all_iff covered_mono)
        (simp add: storeOfflineAction_def storeTasks_def)
  qed
qed
lemma list_all_update: "list_all P xs \<Longrightarrow> P y \<Longrightarrow> list_all P (xs[k := y])"
  using set_update_subset_insert [of xs k y] by (auto simp add: list_all_iff)

lemma list_all_splice1: "list_all P xs \<Longrightarrow> list_all P (splice1 k xs)"
  by (auto simp add: splice1_def list_all_iff dest: in_set_takeD in_set_dropD)

lemma updateTask_try_Inl:
  "fst (updateTask_try e i u tasks k w) = Inl x \<Longrightarrow>
     tasks_item (snd (updateTask_try e i u tasks k w)) = tasks_item w
     \<and> actions_item (snd (updateTask_try e i u tasks k w)) = actions_item w"
  by (simp add: updateTask_try_def case_prod_unfold fetch_store Let_def
      split: sum.splits if_splits json_body.splits option.splits)

lemma updateTask_try_network:
  "list_all plainOutcome (network w) \<Longrightarrow>
     list_all plainOutcome (network (snd (updateTask_try e i u tasks k w)))"
  by (simp add: updateTask_try_def case_prod_unfold fetch_store Let_def storeTasks_def list_all_tl
      split: sum.splits if_splits json_body.splits option.splits)

lemma updateTask_try_Inr:
  assumes "fst (updateTask_try e i u tasks k w) = Inr t" and "list_all plainOutcome (network w)"
  shows "noClientFlags t
     \<and> tasks_item (snd (updateTask_try e i u tasks k w)) = Some (tasks[k := t])
     \<and> actions_item (snd (updateTask_try e i u tasks k w)) = actions_item w"
proof (cases "bearer e")
  case (Inl x)
  with assms(1) show ?thesis by (simp add: updateTask_try_def)
next
  case (Inr tok)
  let ?r = "PutTask tok i (UpdateData u)"
  show ?thesis
  proof (cases "fst (fetch ?r w)")
    case (Inl x)
    with assms(1) Inr show ?thesis by (simp add: updateTask_try_def case_prod_unfold)
  next
    case fr: (Inr resp)
    have p: "plainOutcome (Responded resp)" using assms(2) fr by (rule plain_response)
    show ?thesis
    proof (cases "body resp")
      case Unparsable
      with assms(1) Inr fr show ?thesis
        by (simp add: updateTask_try_def case_prod_unfold split: if_splits)
    next
      case (Json sc dat)
      show ?thesis
      proof (cases "asObject dat")
        case None
        with assms(1) Inr fr Json show ?thesis
          by (simp add: updateTask_try_def case_prod_unfold split: if_splits)
      next
        case (Some b)
        have "noClientFlags (convertBackendTask e b)"
          using plain_asObject [OF p Json Some] by (rule convert_plain)
        with assms(1) Inr fr Json Some show ?thesis
          by (simp add: updateTask_try_def case_prod_unfold Let_def fetch_store storeTasks_def
              split: if_splits)
      qed
    qed
  qed
qed

lemma covered_mergeUpdate:
  assumes "covered acts t" and "task_id t = i"
  shows "covered (acts @ [\<lparr>action_id = x, atype = Update, taskId = i, data = p, timestamp = ts\<rparr>])
           (mergeUpdate e t u)"
  using assms by (auto simp add: covered_def pendingFor_def mergeUpdate_def)

lemma settled_updateTask:
  assumes "settled e w"
  shows "settled e (snd (updateTask e i u w))"
proof (cases "findIndex (\<lambda>t. strict_eq (task_id t) i) (getStoredTasks e w)")
  case None
  with assms show ?thesis by (simp add: updateTask_def)
next
  case (Some k)
  let ?tasks = "getStoredTasks e w"
  let ?attempt = "updateTask_try e i u ?tasks k w"
  from findIndex_Some [OF Some] have kl: "k < length ?tasks"
    and ki: "strict_eq (task_id (?tasks ! k)) i" by simp_all
  have id: "task_id (?tasks ! k) = i" using ki by (rule strict_eq_eq)
  have cov: "list_all (covered (getOfflineActions w)) ?tasks"
    using assms flagsCovered_stored [of e w e] by (simp add: settled_def)
  have pl: "list_all plainOutcome (network w)" using assms by (simp add: settled_def)
  have net: "list_all plainOutcome (network (snd ?attempt))" using pl by (rule updateTask_try_network)
  show ?thesis
  proof (cases "fst ?attempt")
    case (Inr t)
    from updateTask_try_Inr [OF Inr pl] have nf: "noClientFlags t"
      and st: "tasks_item (snd ?attempt) = Some (?tasks[k := t])"
      and sa: "actions_item (snd ?attempt) = actions_item w" by simp_all
    have "list_all (covered (getOfflineActions w)) (?tasks[k := t])"
      using cov plain_covered [OF nf] by (rule list_all_update)
    then have "flagsCovered e (snd ?attempt)"
      using st sa by (simp add: flagsCovered_raw getOfflineActions_def)
    with net Some Inr show ?thesis
      by (simp add: updateTask_def Let_def case_prod_unfold settled_def)
  next
    case (Inl x)
    from updateTask_try_Inl [OF Inl] have sa: "actions_item (snd ?attempt) = actions_item w" by simp
    have a1: "getOfflineActions (snd ?attempt) = getOfflineActions w"
      using getOfflineActions_cong [OF sa] .
    define a where "a = \<lparr>action_id = generateId (dateNow e 0) (mathRandom e 0), atype = Update,
        taskId = i, data = UpdateData u, timestamp = dateNow e 1\<rparr>"
    have "covered (getOfflineActions w) (?tasks ! k)"
      using cov kl by (simp add: list_all_length)
    then have c1: "covered (getOfflineActions w @ [a]) (mergeUpdate e (?tasks ! k) u)"
      unfolding a_def using id by (rule covered_mergeUpdate)
    have "list_all (covered (getOfflineActions w @ [a])) ?tasks"
      using cov by (simp add: list_all_iff covered_mono)
    then have "list_all (covered (getOfflineActions w @ [a])) (?tasks[k := mergeUpdate e (?tasks ! k) u])"
      using c1 by (rule list_all_update)
    then have "flagsCovered e
        (storeOfflineAction a (storeTasks (?tasks[k := mergeUpdate e (?tasks ! k) u]) (snd ?attempt)))"
      by (simp add: flagsCovered_queued a1)
    moreover have "network
        (storeOfflineAction a (storeTasks (?tasks[k := mergeUpdate e (?tasks ! k) u]) (snd ?attempt)))
        = network (snd ?attempt)"
      by (simp add: storeOfflineAction_def storeTasks_def)
    ultimately show ?thesis using net Some Inl
      by (simp add: updateTask_def Let_def case_prod_unfold settled_def a_def)
  qed
qed

lemma deleteTask_try_store:
  "tasks_item (snd (deleteTask_try e i tasks k w))
     = (case fst (deleteTask_try e i tasks k w) of
          Inl x \<Rightarrow> tasks_item w
        | Inr y \<Rightarrow> Some (splice1 k tasks))
   \<and> actions_item (snd (deleteTask_try e i tasks k w)) = actions_item w"
  by (simp add: deleteTask_try_def case_prod_unfold fetch_store storeTasks_def
      split: sum.split json_body.split)

lemma deleteTask_try_Inl:
  "fst (deleteTask_try e i tasks k w) = Inl x \<Longrightarrow>
     tasks_item (snd (deleteTask_try e i tasks k w)) = tasks_item w
     \<and> actions_item (snd (deleteTask_try e i tasks k w)) = actions_item w"
  using deleteTask_try_store [of e i tasks k w] by simp

lemma deleteTask_try_Inr:
  "fst (deleteTask_try e i tasks k w) = Inr y \<Longrightarrow>
     tasks_item (snd (deleteTask_try e i tasks k w)) = Some (splice1 k tasks)
     \<and> actions_item (snd (deleteTask_try e i tasks k w)) = actions_item w"
  using deleteTask_try_store [of e i tasks k w] by simp

lemma deleteTask_try_network:
  "list_all plainOutcome (network w) \<Longrightarrow>
     list_all plainOutcome (network (snd (deleteTask_try e i tasks k w)))"
  by (simp add: deleteTask_try_def case_prod_unfold fetch_store storeTasks_def list_all_tl
      split: sum.splits if_splits json_body.splits)

lemma settled_deleteTask:
  assumes "settled e w"
  shows "settled e (snd (deleteTask e i w))"
proof (cases "findIndex (\<lambda>t. strict_eq (task_id t) i) (getStoredTasks e w)")
  case None
  with assms show ?thesis by (simp add: deleteTask_def)
next
  case (Some k)
  let ?tasks = "getStoredTasks e w"
  let ?attempt = "deleteTask_try e i ?tasks k w"
  have cov: "list_all (covered (getOfflineActions w)) ?tasks"
    using assms flagsCovered_stored [of e w e] by (simp add: settled_def)
  have pl: "list_all plainOutcome (network w)" using assms by (simp add: settled_def)
  have net: "list_all plainOutcome (network (snd ?attempt))" using pl by (rule deleteTask_try_network)
  have sp: "list_all (covered (getOfflineActions w)) (splice1 k ?tasks)"
    using cov by (rule list_all_splice1)
  show ?thesis
  proof (cases "fst ?attempt")
    case (Inr y)
    from deleteTask_try_Inr [OF Inr] sp have "flagsCovered e (snd ?attempt)"
      by (simp add: flagsCovered_raw getOfflineActions_def)
    with net Some Inr show ?thesis
      by (simp add: deleteTask_def Let_def case_prod_unfold settled_def)
  next
    case (Inl x)
    from deleteTask_try_Inl [OF Inl] have sa: "actions_item (snd ?attempt) = actions_item w" by simp
    have a1: "getOfflineActions (snd ?attempt) = getOfflineActions w"
      using getOfflineActions_cong [OF sa] .
    define a where "a = \<lparr>action_id = generateId (dateNow e 0) (mathRandom e 0), atype = Delete,
        taskId = i, data = NoData, timestamp = dateNow e 1\<rparr>"
    have "list_all (covered (getOfflineActions w @ [a])) (splice1 k ?tasks)"
      using sp by (simp add: list_all_iff covered_mono)
    then have "flagsCovered e (storeOfflineAction a (storeTasks (splice1 k ?tasks) (snd ?attempt)))"
      by (simp add: flagsCovered_queued a1)
    moreover have "network (storeOfflineAction a (storeTasks (splice1 k ?tasks) (snd ?attempt)))
        = network (snd ?attempt)"
      by (simp add: storeOfflineAction_def storeTasks_def)
    ultimately show ?thesis using net Some Inl
      by (simp add: deleteTask_def Let_def case_prod_unfold settled_def a_def)
  qed
qed

lemma syncLoop_network:
  "list_all plainOutcome (network w) \<Longrightarrow> list_all plainOutcome (network (syncLoop tok as w))"
proof (induction as arbitrary: w)
  case Nil
  then show ?case by simp
next
  case (Cons a as)
  have "list_all plainOutcome (network (snd (syncAction_try tok a w)))"
    using Cons.prems by (simp add: syncAction_snd fetch_store list_all_tl)
  then show ?case unfolding syncLoop_step by (rule Cons.IH)
qed

lemma fetchTasks_try_network:
  "list_all plainOutcome (network w) \<Longrightarrow>
     list_all plainOutcome (network (snd (fetchTasks_try e w)))"
  by (simp add: fetchTasks_try_def case_prod_unfold fetch_store storeTasks_def Let_def list_all_tl
      split: sum.splits if_splits json_body.splits api_data.splits)

lemma settled_syncOfflineChanges:
  assumes "settled e w" and "syncRefreshes e w"
  shows "settled e (snd (syncOfflineChanges e w))"
proof (cases "token e")
  case None
  with assms(1) show ?thesis by (simp add: syncOfflineChanges_def)
next
  case (Some tok)
  show ?thesis
  proof (cases "tok = [] \<or> getOfflineActions w = []")
    case True
    with Some assms(1) show ?thesis by (auto simp add: syncOfflineChanges_def)
  next
    case False
    let ?w2 = "clearOfflineActions (syncLoop tok (getOfflineActions w) w)"
    from False have t: "tok \<noteq> []" and q: "getOfflineActions w \<noteq> []" by simp_all
    have r: "snd (syncOfflineChanges e w) = snd (fetchTasks_try e ?w2)"
      using syncOfflineChanges_run [OF Some t q] by (simp add: fetchTasks_snd)
    from assms(2) Some False obtain tasks where ok: "fst (fetchTasks_try e ?w2) = Inr tasks"
      by (auto simp add: syncRefreshes_def split: sum.splits)
    have "list_all plainOutcome (network (syncLoop tok (getOfflineActions w) w))"
      using assms(1) by (simp add: settled_def syncLoop_network)
    then have pl: "list_all plainOutcome (network ?w2)" by (simp add: clearOfflineActions_def)
    from fetchTasks_try_listed_plain [OF ok pl] fetchTasks_try_network [OF pl]
    show ?thesis by (simp add: r settled_def)
  qed
qed

lemma settled_perform:
  assumes "settled e w" and "c = OpSync \<longrightarrow> syncRefreshes e w"
  shows "settled e (perform e c w)"
  using assms
  by (cases c)
    (simp_all add: perform_def settled_createTask settled_updateTask settled_deleteTask
      settled_syncOfflineChanges settled_fetchTasks)

lemma settled_env: "settled e w \<Longrightarrow> settled e' w"
  using flagsCovered_cong [of w w e' e] by (simp add: settled_def)

lemma run_settled:
  "settled e w \<Longrightarrow> admissible steps w \<Longrightarrow> settled e (run steps w)"
proof (induction steps arbitrary: w)
  case Nil
  then show ?case by simp
next
  case (Cons step steps)
  obtain e' net c where step: "step = (e', net, c)" by (cases step)
  let ?w = "w\<lparr>network := net\<rparr>"
  from Cons.prems(2) step have pl: "list_all plainOutcome net"
    and sy: "c = OpSync \<longrightarrow> syncRefreshes e' ?w"
    and ad: "admissible steps (perform e' c ?w)" by simp_all
  have "flagsCovered e' ?w" using Cons.prems(1) flagsCovered_cong [of ?w w e' e]
    by (simp add: settled_def)
  with pl have "settled e' ?w" by (simp add: settled_def)
  then have "settled e' (perform e' c ?w)" using sy by (rule settled_perform)
  then have "settled e (perform e' c ?w)" by (rule settled_env)
  then have "settled e (run steps (perform e' c ?w))" using ad by (rule Cons.IH)
  with step show ?case by simp
qed

text \<open>
  C3 (amended). Start from the empty store and apply any sequence of \<^verbatim>\<open>createTask\<close>,
  \<^verbatim>\<open>updateTask\<close>, \<^verbatim>\<open>deleteTask\<close> and \<^verbatim>\<open>fetchTasks\<close> calls, and of
  \<^verbatim>\<open>syncOfflineChanges\<close> calls that return at once or whose closing refresh gets the
  list of the server, against a server whose tasks carry neither of the two flags. In
  every state so reached, each stored task with \<^verbatim>\<open>isLocal\<close> true has a queued create
  action with its id, and each stored task with \<^verbatim>\<open>needsSync\<close> true and \<^verbatim>\<open>isLocal\<close> not
  true has a queued update action with its id.
\<close>

theorem flags_covered_reachable:
  assumes "admissible steps initial"
  shows "flagsCovered e (run steps initial)"
proof -
  have "settled e initial"
    by (simp add: settled_def flagsCovered_raw initial_def)
  from run_settled [OF this assms] show ?thesis by (simp add: settled_def)
qed

theorem flags_covered_reachable_witness:
  "flagsCovered envOnline (run [(envOffline, [], OpCreate dataA), (envOffline, [Rejected], OpSync)] initial)"
proof -
  have "admissible [(envOffline, [], OpCreate dataA), (envOffline, [Rejected], OpSync)] initial"
    by (simp add: syncRefreshes_def plainOutcome_def envOffline_def envAt_def)
  then show ?thesis by (rule flags_covered_reachable)
qed

lemma fetchTasks_store_kept:
  assumes "remoteFails listed e w"
  shows "tasks_item (snd (fetchTasks e w)) = tasks_item w"
proof (cases e w rule: fetchTasks_try_cases)
  case (no_token x)
  from no_token(2) show ?thesis by (simp add: fetchTasks_snd)
next
  case (failed tok x)
  from failed(2) show ?thesis by (simp add: fetchTasks_snd fetch_store)
next
  case (listed tok resp bs)
  from remoteFails_fetch [OF assms listed(1,2)] listed(3,4) have False by (simp add: listed_def)
  then show ?thesis ..
qed

lemma sync_queue_cleared:
  assumes "token e = Some tok" and "tok \<noteq> []" and "getOfflineActions w \<noteq> []"
  shows "actions_item (snd (syncOfflineChanges e w)) = None"
  using syncOfflineChanges_run [OF assms] by (simp add: fetchTasks_actions clearOfflineActions_def)

lemma syncLoop_network_drop: "network (syncLoop tok as w) = drop (length as) (network w)"
proof (induction as arbitrary: w)
  case Nil
  show ?case by simp
next
  case (Cons a as)
  have "network (snd (syncAction_try tok a w)) = tl (network w)"
    by (simp add: syncAction_snd fetch_store)
  then show ?case unfolding syncLoop_step using Cons.IH [of "snd (syncAction_try tok a w)"]
    by (simp add: drop_Suc)
qed

text \<open>
  A draining pass whose create request the server accepts, but whose closing refresh
  fails: the queue is cleared, the stored task keeps \<^verbatim>\<open>isLocal\<close>, and no create action
  is left for it.
\<close>

lemma createTask_first_offline:
  "snd (createTask envOffline dataA (initial\<lparr>network := []\<rparr>)) =
     \<lparr>tasks_item = Some [newLocalTask envOffline userA dataA],
      actions_item = Some [\<lparr>action_id = generateId (dateNow envOffline 2) (mathRandom envOffline 1),
                             atype = Create, taskId = task_id (newLocalTask envOffline userA dataA),
                             data = CreateData dataA, timestamp = dateNow envOffline 3\<rparr>],
      network = [], sent = []\<rparr>"
proof -
  have i0: "initial\<lparr>network := []\<rparr> = initial" by (simp add: initial_def)
  have u: "currentUser envOffline = Some userA" by (simp add: envOffline_def envAt_def)
  have b: "bearer envOffline = Inl (Error ''No auth token'')"
    by (simp add: bearer_def envOffline_def envAt_def)
  have t: "createTask_try envOffline userA dataA initial = (Inl (Error ''No auth token''), initial)"
    by (simp add: createTask_try_def b)
  have r: "snd (createTask envOffline dataA initial) =
      storeOfflineAction
        \<lparr>action_id = generateId (dateNow envOffline 2) (mathRandom envOffline 1),
         atype = Create, taskId = task_id (newLocalTask envOffline userA dataA),
         data = CreateData dataA, timestamp = dateNow envOffline 3\<rparr>
        (storeTasks (getStoredTasks envOffline initial @ [newLocalTask envOffline userA dataA]) initial)"
    by (simp add: createTask_def u t Let_def)
  show ?thesis unfolding i0 r
    by (simp add: getStoredTasks_def storeTasks_def storeOfflineAction_def
        getOfflineActions_def initial_def)
qed

theorem flags_covered_drain_counterexample:
  "\<not> flagsCovered envOnline
        (run [(envOffline, [], OpCreate dataA), (envOnline, [respCreated], OpSync)] initial)"
proof -
  define w where
    "w = (snd (createTask envOffline dataA (initial\<lparr>network := []\<rparr>)))\<lparr>network := [respCreated]\<rparr>"
  define a where "a = \<lparr>action_id = generateId (dateNow envOffline 2) (mathRandom envOffline 1),
      atype = Create, taskId = task_id (newLocalTask envOffline userA dataA),
      data = CreateData dataA, timestamp = dateNow envOffline 3\<rparr>"
  have wt: "tasks_item w = Some [newLocalTask envOffline userA dataA]"
    and wn: "network w = [respCreated]"
    and wq: "getOfflineActions w = [a]"
    by (simp_all add: w_def a_def createTask_first_offline getOfflineActions_def)
  have tk: "token envOnline = Some ''jwt''" by (simp add: envOnline_def envAt_def)
  have ne: "''jwt'' \<noteq> []" by simp
  have q: "getOfflineActions w \<noteq> []" by (simp add: wq)
  have cl: "actions_item (snd (syncOfflineChanges envOnline w)) = None"
    using tk ne q by (rule sync_queue_cleared)
  let ?w2 = "clearOfflineActions (syncLoop ''jwt'' (getOfflineActions w) w)"
  have "network (syncLoop ''jwt'' (getOfflineActions w) w)
      = drop (length (getOfflineActions w)) (network w)"
    by (rule syncLoop_network_drop)
  then have "network (syncLoop ''jwt'' (getOfflineActions w) w) = []"
    by (simp only: wq wn) simp
  then have "network ?w2 = []"
    by (simp add: clearOfflineActions_def)
  then have "remoteFails listed envOnline ?w2"
    by (simp add: remoteFails_def bearer_def tk)
  then have "tasks_item (snd (fetchTasks envOnline ?w2)) = tasks_item ?w2"
    by (rule fetchTasks_store_kept)
  then have st: "tasks_item (snd (syncOfflineChanges envOnline w))
      = Some [newLocalTask envOffline userA dataA]"
    using syncOfflineChanges_run [OF tk ne q]
    by (simp add: clearOfflineActions_def syncLoop_store wt)
  have "\<not> flagsCovered envOnline (snd (syncOfflineChanges envOnline w))"
    by (simp add: flagsCovered_raw st cl getOfflineActions_def covered_def pendingFor_def)
      (simp add: newLocalTask_def)
  then show ?thesis by (simp add: perform_def w_def)
qed

end
